theory Spec2Isabelle
  imports Main "HOL-Library.Char_ord" "HOL-Library.List_Lexorder"
begin

section \<open>Python values, errors and the output stream\<close>

text \<open>
  The generator of \<^verbatim>\<open>grpc_pytools/pythonic.py\<close> is Python 2 code: its strings are byte
  strings (\<^typ>\<open>string\<close>), its integers are unbounded (\<^typ>\<open>int\<close>), and every exception it
  can raise is a value of \<open>error\<close>, \<open>OtherError\<close> standing for the exceptions of no
  concern here, by the name of their class.  A computation that may raise returns
  \<open>error + 'a\<close>.  Running out of memory is not modelled.
\<close>

datatype error =
    ImportError | AttributeError | ValueError | TypeError | IndexError | KeyError
  | OtherError string

datatype pyval = PStr string | PInt int

definition bind_res :: "error + 'a \<Rightarrow> ('a \<Rightarrow> error + 'b) \<Rightarrow> error + 'b" where
  "bind_res r f = (case r of Inl e \<Rightarrow> Inl e | Inr v \<Rightarrow> f v)"

fun map_res :: "('a \<Rightarrow> error + 'b) \<Rightarrow> 'a list \<Rightarrow> error + 'b list" where
  "map_res f [] = Inr []"
| "map_res f (x # xs) =
     bind_res (f x) (\<lambda>y. bind_res (map_res f xs) (\<lambda>ys. Inr (y # ys)))"

text \<open>
  \<^verbatim>\<open>self.writer\<close> is \<^verbatim>\<open>sys.stdout\<close>: a forward-only text stream, modelled by the text
  written to it so far.  A writing method returns the exception it raised, if any, and
  the stream as it left it.  \<open>write_res r w\<close> is \<^verbatim>\<open>self.writer.write(r)\<close>: the argument is
  evaluated first, so when it raises nothing is written.
\<close>

type_synonym writer = string
type_synonym wres = "error option \<times> writer"

definition write_res :: "error + string \<Rightarrow> writer \<Rightarrow> wres" where
  "write_res r w = (case r of Inl e \<Rightarrow> (Some e, w) | Inr text \<Rightarrow> (None, w @ text))"

definition then_w :: "wres \<Rightarrow> (writer \<Rightarrow> wres) \<Rightarrow> wres" where
  "then_w r f = (case r of (None, w) \<Rightarrow> f w | (Some e, w) \<Rightarrow> (Some e, w))"

section \<open>String primitives of Python\<close>

text \<open>
  On byte strings \<^verbatim>\<open>str.lower\<close> and \<^verbatim>\<open>str.upper\<close> change the ASCII letters and
  nothing else; strings are compared byte by byte, a proper prefix being smaller.
\<close>

definition is_upper :: "char \<Rightarrow> bool" where
  "is_upper c = (CHR ''A'' \<le> c \<and> c \<le> CHR ''Z'')"

definition is_lower :: "char \<Rightarrow> bool" where
  "is_lower c = (CHR ''a'' \<le> c \<and> c \<le> CHR ''z'')"

definition is_digit :: "char \<Rightarrow> bool" where
  "is_digit c = (CHR ''0'' \<le> c \<and> c \<le> CHR ''9'')"

definition lower_char :: "char \<Rightarrow> char" where
  "lower_char c = (if is_upper c then char_of (of_char c + (32::nat)) else c)"

definition upper_char :: "char \<Rightarrow> char" where
  "upper_char c = (if is_lower c then char_of (of_char c - (32::nat)) else c)"

definition str_lower :: "string \<Rightarrow> string" where
  "str_lower s = map lower_char s"

definition str_upper :: "string \<Rightarrow> string" where
  "str_upper s = map upper_char s"

definition startswith :: "string \<Rightarrow> string \<Rightarrow> bool" where
  "startswith s p = (take (length p) s = p)"

definition str_replace_char :: "char \<Rightarrow> char \<Rightarrow> string \<Rightarrow> string" where
  "str_replace_char a b s = map (\<lambda>c. if c = a then b else c) s"

fun str_join :: "string \<Rightarrow> string list \<Rightarrow> string" where
  "str_join sep [] = []"
| "str_join sep [x] = x"
| "str_join sep (x # y # ys) = x @ sep @ str_join sep (y # ys)"

definition rsplit1 :: "char \<Rightarrow> string \<Rightarrow> string \<times> string" where
  "rsplit1 d s =
     (let r = rev s
      in (rev (drop 1 (dropWhile (\<lambda>c. c \<noteq> d) r)), rev (takeWhile (\<lambda>c. c \<noteq> d) r)))"

fun digits_of_nat :: "nat \<Rightarrow> string" where
  "digits_of_nat n =
     (if n < 10 then [char_of (48 + n)]
      else digits_of_nat (n div 10) @ [char_of (48 + n mod 10)])"

declare digits_of_nat.simps [simp del]

definition str_of_int :: "int \<Rightarrow> string" where
  "str_of_int i = (if i < 0 then CHR ''-'' # digits_of_nat (nat (- i)) else digits_of_nat (nat i))"

fun py_str :: "pyval \<Rightarrow> string" where
  "py_str (PStr s) = s"
| "py_str (PInt i) = str_of_int i"

subsection \<open>\<^verbatim>\<open>str.format\<close>\<close>

text \<open>
  A template is scanned into literal characters and replacement fields; \<^verbatim>\<open>{{\<close> and
  \<^verbatim>\<open>}}\<close> are escaped braces, a lone brace is a \<^verbatim>\<open>ValueError\<close>.  A field is empty
  (the next positional argument), a number (that positional argument) or a keyword,
  which are the three forms the generator's templates use; a missing argument is an
  \<^verbatim>\<open>IndexError\<close> or a \<^verbatim>\<open>KeyError\<close>.  Conversions and format specifications do
  not occur in the source and are not modelled.
\<close>

datatype fmt_piece = FLit char | FField string

definition cons_res :: "'a \<Rightarrow> error + 'a list \<Rightarrow> error + 'a list" where
  "cons_res x r = bind_res r (\<lambda>xs. Inr (x # xs))"

fun fmt_scan :: "string option \<Rightarrow> string \<Rightarrow> error + fmt_piece list" where
  "fmt_scan None [] = Inr []"
| "fmt_scan (Some acc) [] = Inl ValueError"
| "fmt_scan None [c] =
     (if c = CHR ''{'' \<or> c = CHR ''}'' then Inl ValueError else Inr [FLit c])"
| "fmt_scan None (c # d # ds) =
     (if c = CHR ''{'' then
        (if d = CHR ''{'' then cons_res (FLit c) (fmt_scan None ds)
         else fmt_scan (Some []) (d # ds))
      else if c = CHR ''}'' then
        (if d = CHR ''}'' then cons_res (FLit c) (fmt_scan None ds) else Inl ValueError)
      else cons_res (FLit c) (fmt_scan None (d # ds)))"
| "fmt_scan (Some acc) (c # cs) =
     (if c = CHR ''}'' then cons_res (FField (rev acc)) (fmt_scan None cs)
      else fmt_scan (Some (c # acc)) cs)"

fun nat_of_digits :: "nat \<Rightarrow> string \<Rightarrow> nat" where
  "nat_of_digits acc [] = acc"
| "nat_of_digits acc (c # cs) = nat_of_digits (10 * acc + (of_char c - 48)) cs"

fun fmt_render ::
  "fmt_piece list \<Rightarrow> pyval list \<Rightarrow> (string \<times> pyval) list \<Rightarrow> nat \<Rightarrow> error + string" where
  "fmt_render [] args kwargs auto = Inr []"
| "fmt_render (FLit c # ps) args kwargs auto =
     bind_res (fmt_render ps args kwargs auto) (\<lambda>rest. Inr (c # rest))"
| "fmt_render (FField name # ps) args kwargs auto =
     (if name = [] then
        (if auto < length args
         then bind_res (fmt_render ps args kwargs (Suc auto))
                (\<lambda>rest. Inr (py_str (args ! auto) @ rest))
         else Inl IndexError)
      else if list_all is_digit name then
        (if nat_of_digits 0 name < length args
         then bind_res (fmt_render ps args kwargs auto)
                (\<lambda>rest. Inr (py_str (args ! nat_of_digits 0 name) @ rest))
         else Inl IndexError)
      else
        (case map_of kwargs name of
           None \<Rightarrow> Inl KeyError
         | Some v \<Rightarrow>
             bind_res (fmt_render ps args kwargs auto) (\<lambda>rest. Inr (py_str v @ rest))))"

definition format :: "string \<Rightarrow> pyval list \<Rightarrow> (string \<times> pyval) list \<Rightarrow> error + string" where
  "format template args kwargs =
     bind_res (fmt_scan None template) (\<lambda>ps. fmt_render ps args kwargs 0)"

subsection \<open>\<^verbatim>\<open>re.sub\<close>\<close>

text \<open>
  The three patterns of the source use character classes, \<^verbatim>\<open>.\<close>, \<^verbatim>\<open>^\<close>, sequence,
  alternation, greedy \<^verbatim>\<open>+\<close> and capturing groups.  \<open>rmatch r s\<close> lists the states a
  backtracking matcher can reach from \<open>s\<close>, in the order in which it tries them, so the
  head of the list is the match \<^verbatim>\<open>re\<close> reports.  A state is the position in the
  subject, the text still to read, and the groups captured so far.
\<close>

datatype citem = CChar char | CRange char char | CDigit

datatype regex =
    Cls "citem list"
  | Dot
  | Bol
  | Seq regex regex
  | Alt regex regex
  | Plus regex
  | Group nat regex

type_synonym groups = "nat \<Rightarrow> string option"
type_synonym mstate = "nat \<times> string \<times> groups"

fun citem_match :: "citem \<Rightarrow> char \<Rightarrow> bool" where
  "citem_match (CChar d) c = (c = d)"
| "citem_match (CRange lo hi) c = (lo \<le> c \<and> c \<le> hi)"
| "citem_match CDigit c = is_digit c"

fun eat :: "(char \<Rightarrow> bool) \<Rightarrow> mstate \<Rightarrow> mstate list" where
  "eat P (p, [], g) = []"
| "eat P (p, c # cs, g) = (if P c then [(Suc p, cs, g)] else [])"

text \<open>
  Greedy repetition: after one iteration, further iterations are tried before stopping.
  An iteration that consumed nothing is not repeated.  The fuel is the length of the text
  still to read, which bounds the number of iterations that consume something.
\<close>

fun plus_iter :: "(mstate \<Rightarrow> mstate list) \<Rightarrow> nat \<Rightarrow> mstate \<Rightarrow> mstate list" where
  "plus_iter f 0 s = f s"
| "plus_iter f (Suc k) s =
     concat (map (\<lambda>s'. (if fst s < fst s' then plus_iter f k s' else []) @ [s']) (f s))"

fun rmatch :: "regex \<Rightarrow> mstate \<Rightarrow> mstate list" where
  "rmatch (Cls items) s = eat (\<lambda>c. list_ex (\<lambda>i. citem_match i c) items) s"
| "rmatch Dot s = eat (\<lambda>c. c \<noteq> CHR 0x0A) s"
| "rmatch Bol s = (if fst s = 0 then [s] else [])"
| "rmatch (Seq a b) s = concat (map (rmatch b) (rmatch a s))"
| "rmatch (Alt a b) s = rmatch a s @ rmatch b s"
| "rmatch (Plus a) s = plus_iter (rmatch a) (length (fst (snd s))) s"
| "rmatch (Group n a) s =
     map (\<lambda>s'. (fst s', fst (snd s'),
                (snd (snd s'))(n \<mapsto> take (fst s' - fst s) (fst (snd s)))))
         (rmatch a s)"

text \<open>
  \<^verbatim>\<open>m.group(n)\<close>.  Every group of the three patterns takes part in every match, so the
  case of a group that did not take part never arises; the model reads it as empty.
\<close>

definition group :: "groups \<Rightarrow> nat \<Rightarrow> string" where
  "group g n = (case g n of None \<Rightarrow> [] | Some s \<Rightarrow> s)"

text \<open>
  \<^verbatim>\<open>re.sub(pattern, repl, string)\<close>: the leftmost match from the current position is
  replaced and the scan goes on behind it; where nothing matches the character is copied.
  The flag says that a match ended at the current position: Python 2 skips an empty match
  there.  After an empty match the scan moves on by one character.
\<close>

function re_sub_from ::
  "regex \<Rightarrow> (groups \<Rightarrow> string) \<Rightarrow> bool \<Rightarrow> nat \<Rightarrow> string \<Rightarrow> string" where
  "re_sub_from r repl adj p [] =
     (case rmatch r (p, [], Map.empty) of
        [] \<Rightarrow> []
      | m # _ \<Rightarrow> (if adj then [] else repl (snd (snd m))))"
| "re_sub_from r repl adj p (c # cs) =
     (case rmatch r (p, c # cs, Map.empty) of
        [] \<Rightarrow> c # re_sub_from r repl False (Suc p) cs
      | m # _ \<Rightarrow>
          (if p < fst m
           then repl (snd (snd m)) @ re_sub_from r repl True (fst m) (drop (fst m - Suc p) cs)
           else (if adj then [] else repl (snd (snd m)))
                @ c # re_sub_from r repl False (Suc p) cs))"
  by pat_completeness auto
termination
  by (relation "measure (\<lambda>(r, repl, adj, p, s). length s)") auto

definition re_sub :: "regex \<Rightarrow> (groups \<Rightarrow> string) \<Rightarrow> string \<Rightarrow> string" where
  "re_sub r repl s = re_sub_from r repl False 0 s"

section \<open>The schema module\<close>

text \<open>
  What the generator reads from the compiled schema module, which it imports and does
  not define: the two dictionaries of the descriptor pool, in the order in which
  \<^verbatim>\<open>iteritems()\<close> yields them, and the stub classes found as attributes of the module.  A
  stub class is given by the attributes of its instances in the order in which the
  constructor sets them (one per RPC of the schema, in declaration order); each carries
  the request class bound to it: \<^verbatim>\<open>__name__\<close> and the names of
  \<^verbatim>\<open>DESCRIPTOR.fields\<close>.
\<close>

record enum_descriptor =
  ed_name :: string
  ed_values :: "(string \<times> int) list"

record message_descriptor =
  md_name :: string

record request_class =
  rc_name :: string
  rc_fields :: "string list"

type_synonym stub = "(string \<times> request_class) list"

record descriptor_pool =
  enum_descriptors :: "(string \<times> enum_descriptor) list"
  descriptors :: "(string \<times> message_descriptor) list"

text \<open>
  \<open>sym_db\<close> is what \<^verbatim>\<open>module._sym_db.pool\<close> evaluates to: \<open>None\<close> when the module has no
  \<^verbatim>\<open>_sym_db\<close>, or that has no \<^verbatim>\<open>pool\<close>, and the lookup raises \<^verbatim>\<open>AttributeError\<close>.
\<close>

record pb2_module =
  sym_db :: "descriptor_pool option"
  module_attrs :: "(string \<times> stub) list"

text \<open>
  \<^verbatim>\<open>dir(stub)\<close> is the sorted list of the attribute names; \<^verbatim>\<open>getattr(stub, name)\<close> is
  the value set last under that name.
\<close>

definition py_dir :: "stub \<Rightarrow> string list" where
  "py_dir st = sort (remdups (map fst st))"

definition py_getattr :: "(string \<times> 'a) list \<Rightarrow> string \<Rightarrow> error + 'a" where
  "py_getattr attrs name =
     (case map_of (rev attrs) name of None \<Rightarrow> Inl AttributeError | Some v \<Rightarrow> Inr v)"

text \<open>
  \<^verbatim>\<open>OrderedDict(pairs)\<close>: a key keeps the place of its first insertion and the value of
  its last; \<^verbatim>\<open>iteritems()\<close> yields the list.
\<close>

definition od_set :: "('k \<times> 'v) list \<Rightarrow> 'k \<Rightarrow> 'v \<Rightarrow> ('k \<times> 'v) list" where
  "od_set d k v =
     (if k \<in> set (map fst d) then map (\<lambda>kv. if fst kv = k then (k, v) else kv) d
      else d @ [(k, v)])"

definition ordered_dict :: "('k \<times> 'v) list \<Rightarrow> ('k \<times> 'v) list" where
  "ordered_dict kvs = foldl (\<lambda>d kv. od_set d (fst kv) (snd kv)) [] kvs"

section \<open>The generator\<close>

record generator =
  pb2_module_name :: string
  core_method_name :: string
  unfold_method_args :: bool
  rpc_method_args_size :: int
  pb2_path :: string
  pb2_name :: string
  proto_package_name :: string
  service_name :: string
  stub_class_name :: string
  pb2_module :: pb2_module
  sym_db_pool :: descriptor_pool

subsection \<open>Static helpers\<close>

text \<open>
  \<^verbatim>\<open>sys.maxsize\<close>, the largest value of a C \<^verbatim>\<open>Py_ssize_t\<close>, on a 64-bit build.  No
  Python list has more items.
\<close>

definition maxsize :: int where
  "maxsize = 2 ^ 63 - 1"

text \<open>
  \<^verbatim>\<open>itertools.islice(iterable, n)\<close> on an iterator: the next \<open>n\<close> items and the iterator
  behind them.  The stop argument must be an integer from 0 to \<^verbatim>\<open>sys.maxsize\<close>: any
  other \<open>n\<close> is a \<^verbatim>\<open>ValueError\<close>.
\<close>

definition islice :: "'a list \<Rightarrow> int \<Rightarrow> error + 'a list \<times> 'a list" where
  "islice it n =
     (if n < 0 \<or> maxsize < n then Inl ValueError
      else Inr (take (nat n) it, drop (nat n) it))"

text \<open>
  One resumption of the generator \<^verbatim>\<open>slice_every\<close>: \<open>None\<close> when it returns, else the
  piece it yields and the iterator it keeps.
\<close>

definition slice_every_next ::
  "'a list \<Rightarrow> int \<Rightarrow> bool \<Rightarrow> 'a \<Rightarrow> error + ('a list \<times> 'a list) option" where
  "slice_every_next it n padding padding_item =
     bind_res (islice it n) (\<lambda>(piece, rest).
       if piece = [] then Inr None
       else
         let padding_len = n - int (length piece)
         in Inr (Some
              (if padding_len \<noteq> 0 \<and> padding
               then piece @ replicate (nat padding_len) padding_item
               else piece,
               rest)))"

text \<open>The pieces the generator yields until it returns, for a finite iterable.\<close>

function slice_every :: "'a list \<Rightarrow> int \<Rightarrow> bool \<Rightarrow> 'a \<Rightarrow> error + 'a list list" where
  "slice_every it n padding padding_item =
     (case slice_every_next it n padding padding_item of
        Inl e \<Rightarrow> Inl e
      | Inr None \<Rightarrow> Inr []
      | Inr (Some (piece, rest)) \<Rightarrow>
          cons_res piece (slice_every rest n padding padding_item))"
  by pat_completeness auto
termination
  by (relation "measure (\<lambda>(it, n, padding, padding_item). length it)")
     (auto simp: slice_every_next_def islice_def bind_res_def Let_def split: if_splits)

declare slice_every.simps [simp del]

definition camelize_re :: regex where
  "camelize_re = Seq (Alt Bol (Cls [CChar CHR ''_''])) (Group 1 Dot)"

definition camelize_repl :: "groups \<Rightarrow> string" where
  "camelize_repl m = str_upper (group m 1)"

definition camelize :: "string \<Rightarrow> bool \<Rightarrow> error + string" where
  "camelize string uppercase_first_letter =
     (let camel = re_sub camelize_re camelize_repl string
      in if uppercase_first_letter then Inr camel
         else (case string of
                 [] \<Rightarrow> Inl IndexError
               | c # _ \<Rightarrow> Inr (lower_char c # drop 1 camel)))"

definition underscore_re1 :: regex where
  "underscore_re1 =
     Seq (Group 1 (Plus (Cls [CRange CHR ''A'' CHR ''Z''])))
         (Group 2 (Seq (Cls [CRange CHR ''A'' CHR ''Z'']) (Cls [CRange CHR ''a'' CHR ''z''])))"

definition underscore_re2 :: regex where
  "underscore_re2 =
     Seq (Group 1 (Cls [CRange CHR ''a'' CHR ''z'', CDigit]))
         (Group 2 (Cls [CRange CHR ''A'' CHR ''Z'']))"

definition underscore_repl :: "groups \<Rightarrow> string" where
  "underscore_repl m = group m 1 @ ''_'' @ group m 2"

definition underscore :: "string \<Rightarrow> string" where
  "underscore word =
     (let word = re_sub underscore_re1 underscore_repl word;
          word = re_sub underscore_re2 underscore_repl word;
          word = str_replace_char CHR ''-'' CHR ''_'' word
      in str_lower word)"

subsection \<open>Construction\<close>

text \<open>
  \<open>import_module\<close> is \<^verbatim>\<open>importlib.import_module\<close> in the interpreter that runs the
  generator: the module it returns or the exception it raises (\<^verbatim>\<open>ValueError\<close> for the
  empty name, \<^verbatim>\<open>TypeError\<close> for a relative name, \<^verbatim>\<open>ImportError\<close> for a module that
  is not found, and whatever the module raises while it is loaded).  \<open>service_name\<close> is
  \<open>None\<close> when the option is absent; an empty name is as good as absent
  (\<^verbatim>\<open>service_name or ...\<close>).
\<close>

definition init ::
  "(string \<Rightarrow> error + pb2_module) \<Rightarrow> string \<Rightarrow> string option \<Rightarrow> string \<Rightarrow> bool \<Rightarrow> int
     \<Rightarrow> error + generator" where
  "init import_module module_name opt_service_name core_name unfold args_size =
     (let (path, name) =
            (if CHR ''.'' \<in> set module_name then rsplit1 CHR ''.'' module_name
             else ([], module_name));
          package = take (length name - length ''_pb2'') name
      in bind_res
           (case opt_service_name of
              None \<Rightarrow> camelize package True
            | Some sn \<Rightarrow> if sn = [] then camelize package True else Inr sn)
           (\<lambda>sn.
              bind_res (import_module module_name) (\<lambda>m.
                case sym_db m of
                  None \<Rightarrow> Inl AttributeError
                | Some pool \<Rightarrow>
                    Inr \<lparr> pb2_module_name = module_name,
                          core_method_name = core_name,
                          unfold_method_args = unfold,
                          rpc_method_args_size = args_size,
                          pb2_path = path,
                          pb2_name = name,
                          proto_package_name = package,
                          service_name = sn,
                          stub_class_name = sn @ ''Stub'',
                          pb2_module = m,
                          sym_db_pool = pool \<rparr>)))"

subsection \<open>Emission\<close>

text \<open>A \<^verbatim>\<open>for\<close> loop whose body writes to the stream; an exception ends it.\<close>

fun for_w :: "('a \<Rightarrow> writer \<Rightarrow> wres) \<Rightarrow> 'a list \<Rightarrow> writer \<Rightarrow> wres" where
  "for_w body [] w = (None, w)"
| "for_w body (x # xs) w = then_w (body x w) (for_w body xs)"

definition has_enum_types :: "generator \<Rightarrow> bool" where
  "has_enum_types g =
     list_ex (\<lambda>name. startswith name (proto_package_name g))
       (map fst (enum_descriptors (sym_db_pool g)))"

definition write_module_header :: "generator \<Rightarrow> writer \<Rightarrow> wres" where
  "write_module_header g w =
     write_res
       (bind_res
          (if pb2_path g \<noteq> []
           then format ''from {pb2_path} import {pb2_name}'' []
                  [(''pb2_path'', PStr (pb2_path g)), (''pb2_name'', PStr (pb2_name g))]
           else format ''import {pb2_name}'' [] [(''pb2_name'', PStr (pb2_name g))])
          (\<lambda>import_pb2.
             format ''# -*- coding: utf-8 -*-\<newline>{import_enum}\<newline>import grpc\<newline>\<newline>{import_pb2}'' []
               [(''import_enum'', PStr (if has_enum_types g then ''\<newline>import enum'' else [])),
                (''import_pb2'', PStr import_pb2)]))
       w"

text \<open>The body of the loop of \<^verbatim>\<open>write_enum_types\<close>, for one item of the dictionary.\<close>

definition write_enum_type :: "generator \<Rightarrow> string \<times> enum_descriptor \<Rightarrow> writer \<Rightarrow> wres" where
  "write_enum_type g item w =
     (if startswith (fst item) (proto_package_name g) then
        write_res
          (bind_res
             (map_res
                (\<lambda>v. format ''    {name} = {number}'' []
                        [(''name'', PStr (fst v)), (''number'', PInt (snd v))])
                (ed_values (snd item)))
             (\<lambda>lines.
                format ''\<newline>\<newline>\<newline>class {enum_name}(enum.Enum):\<newline>{values}'' []
                  [(''enum_name'', PStr (ed_name (snd item))),
                   (''values'', PStr (str_join ''\<newline>'' lines))]))
          w
      else (None, w))"

definition write_enum_types :: "generator \<Rightarrow> writer \<Rightarrow> wres" where
  "write_enum_types g w = for_w (write_enum_type g) (enum_descriptors (sym_db_pool g)) w"

text \<open>The body of the loop of \<^verbatim>\<open>write_message_types\<close>.\<close>

definition write_message_type ::
  "generator \<Rightarrow> string \<times> message_descriptor \<Rightarrow> writer \<Rightarrow> wres" where
  "write_message_type g item w =
     (if startswith (fst item) (proto_package_name g) then
        write_res
          (format ''\<newline>{name} = {pb2_name}.{name}'' []
             [(''name'', PStr (md_name (snd item))), (''pb2_name'', PStr (pb2_name g))])
          w
      else (None, w))"

definition write_message_types :: "generator \<Rightarrow> writer \<Rightarrow> wres" where
  "write_message_types g w =
     then_w (write_res (Inr ''\<newline>\<newline>'') w)
       (for_w (write_message_type g) (descriptors (sym_db_pool g)))"

definition write_class_header :: "generator \<Rightarrow> writer \<Rightarrow> wres" where
  "write_class_header g w =
     write_res
       (format ''\<newline>\<newline>\<newline>class {}Service(object):\<newline>'' [PStr (service_name g)] [])
       w"

definition write_class_constructor :: "generator \<Rightarrow> writer \<Rightarrow> wres" where
  "write_class_constructor g w =
     write_res
       (Inr (''\<newline>    def __init__(self, target, timeout=10):''
             @ ''\<newline>        self.target = target''
             @ ''\<newline>        self.timeout = timeout\<newline>''))
       w"

definition write_stub_property :: "generator \<Rightarrow> writer \<Rightarrow> wres" where
  "write_stub_property g w =
     write_res
       (format
          (''\<newline>    @property\<newline>''
           @ ''    def stub(self):\<newline>''
           @ ''        channel = grpc.insecure_channel(self.target)\<newline>''
           @ ''        return {pb2_name}.{stub_class_name}(channel)\<newline>'') []
          [(''pb2_name'', PStr (pb2_name g)),
           (''stub_class_name'', PStr (stub_class_name g))])
       w"

definition write_core_method :: "generator \<Rightarrow> writer \<Rightarrow> wres" where
  "write_core_method g w =
     write_res
       (format
          (''\<newline>    def {core_method_name}(self, rpc_name, req):\<newline>''
           @ ''        rpc = getattr(self.stub, rpc_name)\<newline>''
           @ ''        resp = rpc(req, self.timeout)\<newline>''
           @ ''        return resp\<newline>'') []
          [(''core_method_name'', PStr (core_method_name g)),
           (''pb2_name'', PStr (pb2_name g))])
       w"

definition write_folded_rpc_method :: "generator \<Rightarrow> string \<Rightarrow> string \<Rightarrow> writer \<Rightarrow> wres" where
  "write_folded_rpc_method g method_name req_name w =
     write_res
       (format
          (''\<newline>    def {underscored_method_name}(self, {req_name}):\<newline>''
           @ ''        resp = self.{core_method_name}('{method_name}', {req_name})\<newline>''
           @ ''        return resp\<newline>'') []
          [(''underscored_method_name'', PStr (underscore method_name)),
           (''req_name'', PStr (underscore req_name)),
           (''core_method_name'', PStr (core_method_name g)),
           (''method_name'', PStr method_name)])
       w"

text \<open>
  \<^verbatim>\<open>args_size = self.rpc_method_args_size or len(full_params)\<close>: the configured size
  unless it is 0.  \<^verbatim>\<open>slice_every\<close> is called without padding, so its padding item (here
  the empty string) is never used.
\<close>

definition write_unfolded_rpc_method ::
  "generator \<Rightarrow> string \<Rightarrow> string \<Rightarrow> string list \<Rightarrow> writer \<Rightarrow> wres" where
  "write_unfolded_rpc_method g method_name req_name req_param_names w =
     write_res
       (bind_res (format ''    def {}('' [PStr (underscore method_name)] [])
          (\<lambda>indented_header.
             let full_params = ''self'' # req_param_names;
                 args_size = (if rpc_method_args_size g \<noteq> 0 then rpc_method_args_size g
                              else int (length full_params));
                 separator = '',\<newline>'' @ replicate (length indented_header) CHR '' ''
             in bind_res (slice_every full_params args_size False [])
                  (\<lambda>pieces.
                     let indented_params = str_join separator (map (str_join '', '') pieces)
                     in bind_res
                          (map_res (\<lambda>param_name. format ''            {0}={0}'' [PStr param_name] [])
                             req_param_names)
                          (\<lambda>kwargs.
                             let indented_kwargs = str_join '',\<newline>'' kwargs
                             in bind_res
                                  (format
                                     (''        req = {req_name}(\<newline>''
                                      @ ''{indented_kwargs}\<newline>''
                                      @ ''        )\<newline>''
                                      @ ''        resp = self.{core_method_name}('{method_name}', req)\<newline>''
                                      @ ''        return resp\<newline>'') []
                                     [(''req_name'', PStr req_name),
                                      (''indented_kwargs'', PStr indented_kwargs),
                                      (''core_method_name'', PStr (core_method_name g)),
                                      (''method_name'', PStr method_name)])
                                  (\<lambda>indented_body.
                                     format
                                       (''\<newline>{indented_header}''
                                        @ ''{indented_params}):\<newline>''
                                        @ ''{indented_body}'') []
                                       [(''indented_header'', PStr indented_header),
                                        (''indented_params'', PStr indented_params),
                                        (''indented_body'', PStr indented_body)])))))
       w"

text \<open>The body of the loop of \<^verbatim>\<open>write_rpc_methods\<close>, for one item of \<^verbatim>\<open>stub_methods\<close>.\<close>

definition write_rpc_method :: "generator \<Rightarrow> string \<times> request_class \<Rightarrow> writer \<Rightarrow> wres" where
  "write_rpc_method g item w =
     (let req_name = rc_name (snd item);
          req_param_names = map underscore (rc_fields (snd item))
      in if unfold_method_args g
         then write_unfolded_rpc_method g (fst item) req_name req_param_names w
         else write_folded_rpc_method g (fst item) req_name w)"

definition stub_method_names :: "stub \<Rightarrow> string list" where
  "stub_method_names st = sort (filter (\<lambda>attr. \<not> startswith attr ''__'') (py_dir st))"

definition write_rpc_methods :: "generator \<Rightarrow> writer \<Rightarrow> wres" where
  "write_rpc_methods g w =
     (case py_getattr (module_attrs (pb2_module g)) (stub_class_name g) of
        Inl e \<Rightarrow> (Some e, w)
      | Inr st \<Rightarrow>
          (case map_res (\<lambda>name. bind_res (py_getattr st name) (\<lambda>m. Inr (name, m)))
                  (stub_method_names st) of
             Inl e \<Rightarrow> (Some e, w)
           | Inr pairs \<Rightarrow> for_w (write_rpc_method g) (ordered_dict pairs) w))"

definition generate :: "generator \<Rightarrow> writer \<Rightarrow> wres" where
  "generate g w =
     then_w (write_module_header g w) (\<lambda>w.
     then_w (write_enum_types g w) (\<lambda>w.
     then_w (write_message_types g w) (\<lambda>w.
     then_w (write_class_header g w) (\<lambda>w.
     then_w (write_class_constructor g w) (\<lambda>w.
     then_w (write_stub_property g w) (\<lambda>w.
     then_w (write_core_method g w) (\<lambda>w.
     write_rpc_methods g w)))))))"

section \<open>An example schema\<close>

text \<open>
  A schema module \<^verbatim>\<open>foo_pb2\<close> of package \<^verbatim>\<open>foo\<close>: the pool holds the enums
  \<^verbatim>\<open>foo.Color\<close> and \<^verbatim>\<open>bar.Shade\<close> and two messages; the service \<^verbatim>\<open>Foo\<close> declares the
  RPC \<^verbatim>\<open>GetUser\<close> before the RPC \<^verbatim>\<open>AddUser\<close>.  The interpreter finds it under three
  names.
\<close>

definition example_pool :: descriptor_pool where
  "example_pool =
     \<lparr> enum_descriptors =
         [(''foo.Color'', \<lparr> ed_name = ''Color'', ed_values = [(''RED'', 0), (''GREEN'', 1)] \<rparr>),
          (''bar.Shade'', \<lparr> ed_name = ''Shade'', ed_values = [(''DARK'', 0)] \<rparr>)],
       descriptors =
         [(''foo.GetUserRequest'', \<lparr> md_name = ''GetUserRequest'' \<rparr>),
          (''bar.Tint'', \<lparr> md_name = ''Tint'' \<rparr>)] \<rparr>"

definition example_module :: pb2_module where
  "example_module =
     \<lparr> sym_db = Some example_pool,
       module_attrs =
         [(''FooStub'',
           [(''GetUser'', \<lparr> rc_name = ''GetUserRequest'', rc_fields = [''id'', ''name''] \<rparr>),
            (''AddUser'', \<lparr> rc_name = ''AddUserRequest'', rc_fields = [''fullName''] \<rparr>)])] \<rparr>"

definition example_import :: "string \<Rightarrow> error + pb2_module" where
  "example_import name =
     (if name = [] then Inl ValueError
      else if hd name = CHR ''.'' then Inl TypeError
      else if name = ''foo_pb2'' \<or> name = ''pkg.foo_pb2'' \<or> name = ''foo_pb2_grpc''
      then Inr example_module
      else Inl ImportError)"

definition example_generator :: generator where
  "example_generator =
     \<lparr> pb2_module_name = ''foo_pb2'',
       core_method_name = ''call_rpc'',
       unfold_method_args = False,
       rpc_method_args_size = 0,
       pb2_path = [],
       pb2_name = ''foo_pb2'',
       proto_package_name = ''foo'',
       service_name = ''Foo'',
       stub_class_name = ''FooStub'',
       pb2_module = example_module,
       sym_db_pool = example_pool \<rparr>"

section \<open>Closed forms of the substitutions\<close>

text \<open>
  What the substitutions of \<open>underscore\<close> and the substitution of \<open>camelize\<close>
  (behind the first character) compute, written as scans of the string; they are proved
  equal to the substitutions below.  \<open>no_adjacent_upper\<close> holds of the strings that the
  first substitution of \<open>underscore\<close> leaves alone.
\<close>

fun no_adjacent_upper :: "string \<Rightarrow> bool" where
  "no_adjacent_upper (a # b # cs) = (\<not> (is_upper a \<and> is_upper b) \<and> no_adjacent_upper (b # cs))"
| "no_adjacent_upper [a] = True"
| "no_adjacent_upper [] = True"

fun us2 :: "string \<Rightarrow> string" where
  "us2 (a # b # cs) =
     (if (is_lower a \<or> is_digit a) \<and> is_upper b then a # CHR ''_'' # b # us2 cs
      else a # us2 (b # cs))"
| "us2 [a] = [a]"
| "us2 [] = []"

fun cam :: "string \<Rightarrow> string" where
  "cam (a # b # cs) =
     (if a = CHR ''_'' \<and> b \<noteq> CHR 0x0A then upper_char b # cam cs else a # cam (b # cs))"
| "cam [a] = [a]"
| "cam [] = []"

text \<open>
  The camel forms that \<open>underscore\<close> and \<open>camelize\<close> reproduce.  \<open>is_word\<close> holds of
  the characters of an ASCII identifier.  \<open>camel_tail p s\<close> reads \<open>s\<close> behind the character
  \<open>p\<close>: an underscore is the last character, and an uppercase letter follows a lowercase
  letter or a digit, or follows an uppercase letter and is followed by a lowercase one.
  \<open>camel_ok\<close> asks this of a string behind its first character.  \<open>sep1\<close> and \<open>sep2\<close>
  are the two substitutions of \<open>underscore\<close> on such a string behind the character \<open>p\<close>,
  and \<open>sep\<close> is the two in a row: an underscore before every uppercase letter.
\<close>

definition is_word :: "char \<Rightarrow> bool" where
  "is_word c = (is_upper c \<or> is_lower c \<or> is_digit c \<or> c = CHR ''_'')"

fun starts_lower :: "string \<Rightarrow> bool" where
  "starts_lower [] = False"
| "starts_lower (d # s) = is_lower d"

fun camel_tail :: "char \<Rightarrow> string \<Rightarrow> bool" where
  "camel_tail p [] = True"
| "camel_tail p (a # s) =
     ((if a = CHR ''_'' then s = []
       else if is_upper a
         then (is_lower p \<or> is_digit p) \<or> (is_upper p \<and> starts_lower s)
         else True)
      \<and> camel_tail a s)"

definition camel_ok :: "string \<Rightarrow> bool" where
  "camel_ok c = (case c of [] \<Rightarrow> True | a # s \<Rightarrow> camel_tail a s)"

fun sep1 :: "char \<Rightarrow> string \<Rightarrow> string" where
  "sep1 p [] = []"
| "sep1 p (a # s) =
     (if is_upper p \<and> is_upper a then CHR ''_'' # a # sep1 a s else a # sep1 a s)"

fun sep2 :: "char \<Rightarrow> string \<Rightarrow> string" where
  "sep2 p [] = []"
| "sep2 p (a # s) =
     (if (is_lower p \<or> is_digit p) \<and> is_upper a then CHR ''_'' # a # sep2 a s
      else a # sep2 a s)"

fun sep :: "string \<Rightarrow> string" where
  "sep [] = []"
| "sep (a # s) = (if is_upper a then CHR ''_'' # a # sep s else a # sep s)"

section \<open>Properties of the chunking utility\<close>



lemma maxsize_pos: "0 < maxsize"
  by (simp add: maxsize_def)

lemma slice_every_neg:
  "n < 0 \<or> maxsize < n \<Longrightarrow> slice_every xs n pad p = Inl ValueError"
  by (auto simp: slice_every.simps [of xs] slice_every_next_def islice_def bind_res_def)

lemma slice_every_zero: "slice_every xs 0 pad p = Inr []"
  using maxsize_pos
  by (simp add: slice_every.simps [of xs] slice_every_next_def islice_def bind_res_def)

lemma slice_every_nil: "0 \<le> n \<Longrightarrow> n \<le> maxsize \<Longrightarrow> slice_every [] n pad p = Inr []"
  by (simp add: slice_every.simps [of "[]"] slice_every_next_def islice_def bind_res_def)

lemma slice_every_step:
  assumes "0 < n" and "n \<le> maxsize" and "xs \<noteq> []"
  shows "slice_every xs n pad p =
         cons_res (if pad then take (nat n) xs @ replicate (nat n - length (take (nat n) xs)) p
                   else take (nat n) xs)
           (slice_every (drop (nat n) xs) n pad p)"
proof -
  have a: "n - int (min (length xs) (nat n)) = 0 \<longleftrightarrow> nat n - min (length xs) (nat n) = 0"
    using assms by auto
  have b: "nat (n - int (min (length xs) (nat n))) = nat n - min (length xs) (nat n)"
    using assms by auto
  have c: "take (nat n) xs \<noteq> []" using assms by (cases xs) auto
  have "slice_every_next xs n pad p =
     Inr (Some (if pad then take (nat n) xs @ replicate (nat n - length (take (nat n) xs)) p
                   else take (nat n) xs, drop (nat n) xs))"
    using assms(1,2) c a b
    by (auto simp: slice_every_next_def islice_def bind_res_def Let_def)
  then show ?thesis
    by (subst slice_every.simps) simp
qed





section \<open>The text of each fragment\<close>

lemma map_res_Inr:
  assumes "\<And>x. f x = Inr (h x)"
  shows "map_res f xs = Inr (map h xs)"
  by (induction xs) (simp_all add: assms bind_res_def)

lemma map_res_Inr_lambda: "map_res (\<lambda>x. Inr (h x)) xs = Inr (map h xs)"
  by (rule map_res_Inr) simp

lemma for_w_text:
  assumes "\<And>x w. body x w = (None, w @ t x)"
  shows "for_w body xs w = (None, w @ concat (map t xs))"
  by (induction xs arbitrary: w) (simp_all add: assms then_w_def)

lemma concat_map_if_filter:
  "concat (map (\<lambda>x. if P x then f x else []) xs) = concat (map f (filter P xs))"
  by (induction xs) simp_all

lemma write_module_header_text:
  "write_module_header g w =
     (None, w @ ''# -*- coding: utf-8 -*-\<newline>''
            @ (if has_enum_types g then ''\<newline>import enum'' else [])
            @ ''\<newline>import grpc\<newline>\<newline>''
            @ (if pb2_path g \<noteq> [] then ''from '' @ pb2_path g @ '' import '' @ pb2_name g
               else ''import '' @ pb2_name g))"
  by (simp add: write_module_header_def format_def write_res_def cons_res_def bind_res_def
        is_digit_def)

lemma enum_value_line:
  "format ''    {name} = {number}'' [] [(''name'', PStr (fst v)), (''number'', PInt (snd v))]
     = Inr (''    '' @ fst v @ '' = '' @ str_of_int (snd v))"
  by (simp add: format_def cons_res_def bind_res_def is_digit_def)

lemma write_enum_type_text:
  "write_enum_type g item w =
     (None, w @ (if startswith (fst item) (proto_package_name g)
                 then ''\<newline>\<newline>\<newline>class '' @ ed_name (snd item) @ ''(enum.Enum):\<newline>''
                      @ str_join ''\<newline>''
                          (map (\<lambda>v. ''    '' @ fst v @ '' = '' @ str_of_int (snd v))
                             (ed_values (snd item)))
                 else []))"
  by (simp add: write_enum_type_def map_res_Inr_lambda
        format_def write_res_def cons_res_def bind_res_def is_digit_def)

lemma write_message_type_text:
  "write_message_type g item w =
     (None, w @ (if startswith (fst item) (proto_package_name g)
                 then ''\<newline>'' @ md_name (snd item) @ '' = '' @ pb2_name g @ ''.''
                      @ md_name (snd item)
                 else []))"
  by (simp add: write_message_type_def format_def write_res_def cons_res_def bind_res_def
        is_digit_def)

lemma write_class_header_text:
  "write_class_header g w =
     (None, w @ ''\<newline>\<newline>\<newline>class '' @ service_name g @ ''Service(object):\<newline>'')"
  by (simp add: write_class_header_def format_def write_res_def cons_res_def bind_res_def)

lemma write_class_constructor_text:
  "write_class_constructor g w =
     (None, w @ ''\<newline>    def __init__(self, target, timeout=10):''
            @ ''\<newline>        self.target = target''
            @ ''\<newline>        self.timeout = timeout\<newline>'')"
  by (simp add: write_class_constructor_def write_res_def)

lemma write_stub_property_text:
  "write_stub_property g w =
     (None, w @ ''\<newline>    @property\<newline>''
            @ ''    def stub(self):\<newline>''
            @ ''        channel = grpc.insecure_channel(self.target)\<newline>''
            @ ''        return '' @ pb2_name g @ ''.'' @ stub_class_name g @ ''(channel)\<newline>'')"
  by (simp add: write_stub_property_def format_def write_res_def cons_res_def bind_res_def
        is_digit_def)

lemma write_core_method_text:
  "write_core_method g w =
     (None, w @ ''\<newline>    def '' @ core_method_name g @ ''(self, rpc_name, req):\<newline>''
            @ ''        rpc = getattr(self.stub, rpc_name)\<newline>''
            @ ''        resp = rpc(req, self.timeout)\<newline>''
            @ ''        return resp\<newline>'')"
  by (simp add: write_core_method_def format_def write_res_def cons_res_def bind_res_def
        is_digit_def)

lemma write_folded_rpc_method_text:
  "write_folded_rpc_method g method_name req_name w =
     (None, w @ ''\<newline>    def '' @ underscore method_name
            @ ''(self, '' @ underscore req_name @ ''):\<newline>''
            @ ''        resp = self.'' @ core_method_name g
            @ ''('' @ [CHR 0x27] @ method_name @ [CHR 0x27] @ '', '' @ underscore req_name
            @ '')\<newline>''
            @ ''        return resp\<newline>'')"
  by (simp add: write_folded_rpc_method_def format_def write_res_def cons_res_def bind_res_def
        is_digit_def)

lemma write_enum_types_text:
  "write_enum_types g w =
     (None, w @ concat (map (\<lambda>item. ''\<newline>\<newline>\<newline>class '' @ ed_name (snd item) @ ''(enum.Enum):\<newline>''
                                  @ str_join ''\<newline>''
                                      (map (\<lambda>v. ''    '' @ fst v @ '' = '' @ str_of_int (snd v))
                                         (ed_values (snd item))))
                     (filter (\<lambda>item. startswith (fst item) (proto_package_name g))
                        (enum_descriptors (sym_db_pool g)))))"
  unfolding write_enum_types_def
  by (simp only: for_w_text [of "write_enum_type g", OF write_enum_type_text]
        concat_map_if_filter)

lemma write_message_types_text:
  "write_message_types g w =
     (None, w @ ''\<newline>\<newline>''
            @ concat (map (\<lambda>item. ''\<newline>'' @ md_name (snd item) @ '' = '' @ pb2_name g @ ''.''
                                  @ md_name (snd item))
                     (filter (\<lambda>item. startswith (fst item) (proto_package_name g))
                        (descriptors (sym_db_pool g)))))"
  unfolding write_message_types_def
  by (simp add: for_w_text [of "write_message_type g", OF write_message_type_text]
        concat_map_if_filter write_res_def then_w_def)

section \<open>The prefix filter\<close>

text \<open>
  Claim C2.  The enum declarations written are those of the items of the enum dictionary
  whose fully-qualified name starts with the package name, in the order of the
  dictionary, and nothing else; the message aliases likewise, behind two newlines.
\<close>

theorem prefix_filter_declarations:
  "write_enum_types g w =
     (None, w @ concat (map (\<lambda>item. ''\<newline>\<newline>\<newline>class '' @ ed_name (snd item) @ ''(enum.Enum):\<newline>''
                                  @ str_join ''\<newline>''
                                      (map (\<lambda>v. ''    '' @ fst v @ '' = '' @ str_of_int (snd v))
                                         (ed_values (snd item))))
                     (filter (\<lambda>item. startswith (fst item) (proto_package_name g))
                        (enum_descriptors (sym_db_pool g)))))
   \<and> write_message_types g w =
     (None, w @ ''\<newline>\<newline>''
            @ concat (map (\<lambda>item. ''\<newline>'' @ md_name (snd item) @ '' = '' @ pb2_name g @ ''.''
                                  @ md_name (snd item))
                     (filter (\<lambda>item. startswith (fst item) (proto_package_name g))
                        (descriptors (sym_db_pool g)))))"
  by (simp only: write_enum_types_text write_message_types_text simp_thms)

lemma str_of_int_0_1: "str_of_int 0 = ''0''" "str_of_int 1 = ''1''"
  by code_simp+

text \<open>
  The example of the claim: of the enums \<^verbatim>\<open>foo.Color\<close> and \<^verbatim>\<open>bar.Shade\<close>, generating
  for package \<^verbatim>\<open>foo\<close> emits only \<^verbatim>\<open>Color\<close>.
\<close>

theorem prefix_filter_declarations_witness:
  "write_enum_types example_generator []
     = (None, ''\<newline>\<newline>\<newline>class Color(enum.Enum):\<newline>    RED = 0\<newline>    GREEN = 1'')
   \<and> write_message_types example_generator []
     = (None, ''\<newline>\<newline>\<newline>GetUserRequest = foo_pb2.GetUserRequest'')"
  using prefix_filter_declarations [of example_generator "[]"]
  by (simp add: example_generator_def example_pool_def startswith_def str_of_int_0_1)

section \<open>Folded mode\<close>

lemma underscore_examples:
  "underscore ''GetUser'' = ''get_user''"
  "underscore ''GetUserRequest'' = ''get_user_request''"
  "underscore ''id'' = ''id''"
  "underscore ''name'' = ''name''"
  by code_simp+

text \<open>
  Claim C5.  In folded mode the loop body writes, for the stub attribute \<open>method_name\<close>
  bound to the request class \<open>rc\<close>, one method named by the underscored RPC name, whose
  only parameter besides \<^verbatim>\<open>self\<close> is the underscored name of the request class, and whose
  body passes the RPC's name as a literal and that parameter to the core method.
\<close>

theorem folded_rpc_method:
  assumes "\<not> unfold_method_args g"
  shows "write_rpc_method g (method_name, rc) w =
     (None, w @ ''\<newline>    def '' @ underscore method_name
            @ ''(self, '' @ underscore (rc_name rc) @ ''):\<newline>''
            @ ''        resp = self.'' @ core_method_name g
            @ ''('' @ [CHR 0x27] @ method_name @ [CHR 0x27] @ '', '' @ underscore (rc_name rc)
            @ '')\<newline>''
            @ ''        return resp\<newline>'')"
  using assms
  by (simp only: write_rpc_method_def Let_def if_False fst_conv snd_conv
        write_folded_rpc_method_text)

theorem folded_rpc_method_witness:
  "\<not> unfold_method_args example_generator
   \<and> write_rpc_method example_generator
        (''GetUser'', \<lparr> rc_name = ''GetUserRequest'', rc_fields = [''id'', ''name''] \<rparr>) []
     = (None, ''\<newline>    def get_user(self, get_user_request):\<newline>''
              @ ''        resp = self.call_rpc('GetUser', get_user_request)\<newline>''
              @ ''        return resp\<newline>'')"
proof -
  have f: "\<not> unfold_method_args example_generator"
    by (simp add: example_generator_def)
  show ?thesis
    using f folded_rpc_method [OF f, of "''GetUser''"
            "\<lparr> rc_name = ''GetUserRequest'', rc_fields = [''id'', ''name''] \<rparr>" "[]"]
    by (simp add: underscore_examples example_generator_def)
qed

section \<open>A missing stub class\<close>

lemma py_getattr_missing:
  "name \<notin> fst ` set attrs \<Longrightarrow> py_getattr attrs name = Inl AttributeError"
  by (simp add: py_getattr_def map_of_eq_None_iff [THEN iffD2])

text \<open>
  Claim C1 as the code has it.  The stub class is looked up by the last step only.  When
  the module lacks it, the seven steps before have run without an exception and their
  text, from the encoding line on, stays on the stream; \<^verbatim>\<open>write_rpc_methods\<close> then
  raises \<^verbatim>\<open>AttributeError\<close> before it writes anything, which ends the run.
\<close>

theorem generate_missing_stub:
  assumes "stub_class_name g \<notin> fst ` set (module_attrs (pb2_module g))"
  shows "\<exists>w1 w2 w3 w4 w5 w6 w7 rest.
           write_module_header g w = (None, w1)
         \<and> write_enum_types g w1 = (None, w2)
         \<and> write_message_types g w2 = (None, w3)
         \<and> write_class_header g w3 = (None, w4)
         \<and> write_class_constructor g w4 = (None, w5)
         \<and> write_stub_property g w5 = (None, w6)
         \<and> write_core_method g w6 = (None, w7)
         \<and> write_rpc_methods g w7 = (Some AttributeError, w7)
         \<and> generate g w = (Some AttributeError, w7)
         \<and> w7 = w @ ''# -*- coding: utf-8 -*-\<newline>'' @ rest"
proof -
  obtain w1 where w1: "write_module_header g w = (None, w1)"
    and p1: "\<exists>r. w1 = w @ ''# -*- coding: utf-8 -*-\<newline>'' @ r"
    by (simp only: write_module_header_text) blast
  obtain w2 where w2: "write_enum_types g w1 = (None, w2)" and p2: "\<exists>r. w2 = w1 @ r"
    by (simp only: write_enum_types_text) blast
  obtain w3 where w3: "write_message_types g w2 = (None, w3)" and p3: "\<exists>r. w3 = w2 @ r"
    by (simp only: write_message_types_text) blast
  obtain w4 where w4: "write_class_header g w3 = (None, w4)" and p4: "\<exists>r. w4 = w3 @ r"
    by (simp only: write_class_header_text) blast
  obtain w5 where w5: "write_class_constructor g w4 = (None, w5)" and p5: "\<exists>r. w5 = w4 @ r"
    by (simp only: write_class_constructor_text) blast
  obtain w6 where w6: "write_stub_property g w5 = (None, w6)" and p6: "\<exists>r. w6 = w5 @ r"
    by (simp only: write_stub_property_text) blast
  obtain w7 where w7: "write_core_method g w6 = (None, w7)" and p7: "\<exists>r. w7 = w6 @ r"
    by (simp only: write_core_method_text) blast
  have rpc: "write_rpc_methods g w7 = (Some AttributeError, w7)"
    by (simp add: write_rpc_methods_def py_getattr_missing [OF assms])
  have gen: "generate g w = (Some AttributeError, w7)"
    by (simp add: generate_def then_w_def w1 w2 w3 w4 w5 w6 w7 rpc)
  have "\<exists>rest. w7 = w @ ''# -*- coding: utf-8 -*-\<newline>'' @ rest"
    using p1 p2 p3 p4 p5 p6 p7 by (metis append.assoc)
  then show ?thesis
    using w1 w2 w3 w4 w5 w6 w7 rpc gen by blast
qed


text \<open>
  The example schema with \<^verbatim>\<open>--service-name Bar\<close>: the module has \<^verbatim>\<open>FooStub\<close> only.
\<close>

theorem generate_missing_stub_witness:
  "stub_class_name (example_generator\<lparr>service_name := ''Bar'', stub_class_name := ''BarStub''\<rparr>)
     \<notin> fst ` set (module_attrs (pb2_module
           (example_generator\<lparr>service_name := ''Bar'', stub_class_name := ''BarStub''\<rparr>)))
   \<and> (\<exists>w7 rest.
         generate (example_generator\<lparr>service_name := ''Bar'', stub_class_name := ''BarStub''\<rparr>) []
           = (Some AttributeError, w7)
         \<and> w7 = ''# -*- coding: utf-8 -*-\<newline>'' @ rest)"
proof -
  have missing:
    "stub_class_name (example_generator\<lparr>service_name := ''Bar'', stub_class_name := ''BarStub''\<rparr>)
       \<notin> fst ` set (module_attrs (pb2_module
             (example_generator\<lparr>service_name := ''Bar'', stub_class_name := ''BarStub''\<rparr>)))"
    by (simp add: example_generator_def example_module_def)
  show ?thesis
    using missing generate_missing_stub [OF missing, of "[]"]
    by (simp only: append_Nil) blast
qed

text \<open>
  Claim C1 as stated fails: the run aborts, but only after the module header, the enum
  and message declarations, the class header, the constructor, the stub accessor and the
  core method are on the stream.
\<close>

theorem generate_missing_stub_counterexample:
  "py_getattr (module_attrs (pb2_module example_generator)) ''BarStub'' = Inl AttributeError
   \<and> generate (example_generator\<lparr>service_name := ''Bar'', stub_class_name := ''BarStub''\<rparr>) []
     = (Some AttributeError,
        ''# -*- coding: utf-8 -*-\<newline>''
        @ ''\<newline>import enum''
        @ ''\<newline>import grpc\<newline>\<newline>''
        @ ''import foo_pb2''
        @ ''\<newline>\<newline>\<newline>class Color(enum.Enum):\<newline>''
        @ ''    RED = 0\<newline>''
        @ ''    GREEN = 1''
        @ ''\<newline>\<newline>''
        @ ''\<newline>GetUserRequest = foo_pb2.GetUserRequest''
        @ ''\<newline>\<newline>\<newline>class BarService(object):\<newline>''
        @ ''\<newline>    def __init__(self, target, timeout=10):''
        @ ''\<newline>        self.target = target''
        @ ''\<newline>        self.timeout = timeout\<newline>''
        @ ''\<newline>    @property\<newline>''
        @ ''    def stub(self):\<newline>''
        @ ''        channel = grpc.insecure_channel(self.target)\<newline>''
        @ ''        return foo_pb2.BarStub(channel)\<newline>''
        @ ''\<newline>    def call_rpc(self, rpc_name, req):\<newline>''
        @ ''        rpc = getattr(self.stub, rpc_name)\<newline>''
        @ ''        resp = rpc(req, self.timeout)\<newline>''
        @ ''        return resp\<newline>'')"
  by code_simp

section \<open>Deriving the package name\<close>

lemma takeWhile_no_dot:
  "d \<notin> set s \<Longrightarrow> rev (takeWhile (\<lambda>c. c \<noteq> d) (rev s)) = s"
proof -
  assume "d \<notin> set s"
  then have "takeWhile (\<lambda>c. c \<noteq> d) (rev s) = rev s"
    by (auto simp: takeWhile_eq_all_conv)
  then show ?thesis by (simp only: rev_rev_ident)
qed

lemma init_short_name:
  "init import_module module_name sn core unfold args_size = Inr g \<Longrightarrow>
     pb2_name g = rev (takeWhile (\<lambda>c. c \<noteq> CHR ''.'') (rev module_name))
     \<and> proto_package_name g = take (length (pb2_name g) - length ''_pb2'') (pb2_name g)"
  by (cases "CHR ''.'' \<in> set module_name")
     (auto simp: init_def Let_def bind_res_def camelize_def rsplit1_def takeWhile_no_dot
           split: option.splits sum.splits prod.splits if_splits)

lemma init_succeeds:
  assumes "import_module module_name = Inr m" and "sym_db m = Some pool"
  shows "\<exists>g. init import_module module_name sn core unfold args_size = Inr g"
  using assms
  by (auto simp: init_def Let_def bind_res_def camelize_def
           split: option.splits sum.splits prod.splits if_splits)

text \<open>
  Claim C9 as the code has it.  The suffix of the short name is not tested, and deriving
  the package name cannot fail: where the module is imported and its descriptor pool is
  found, construction succeeds.  The short name is the part of the module name behind its
  last dot, and the package name is the short name without its last four characters,
  whatever they are; so a short name that ends in \<^verbatim>\<open>_pb2\<close> loses exactly that suffix.
\<close>

theorem init_package_name:
  assumes "import_module module_name = Inr m" and "sym_db m = Some pool"
  shows "\<exists>g. init import_module module_name sn core unfold args_size = Inr g
           \<and> pb2_name g = rev (takeWhile (\<lambda>c. c \<noteq> CHR ''.'') (rev module_name))
           \<and> proto_package_name g = take (length (pb2_name g) - 4) (pb2_name g)
           \<and> (\<forall>pkg. pb2_name g = pkg @ ''_pb2'' \<longrightarrow> proto_package_name g = pkg)"
proof -
  obtain g where g: "init import_module module_name sn core unfold args_size = Inr g"
    using init_succeeds [of import_module "module_name" m pool sn core "unfold" args_size] assms
    by blast
  have pkg: "proto_package_name g = take (length (pb2_name g) - 4) (pb2_name g)"
    using init_short_name [OF g] by (simp add: eval_nat_numeral)
  have "proto_package_name g = p" if "pb2_name g = p @ ''_pb2''" for p
    using pkg that by simp
  then show ?thesis
    using g pkg init_short_name [OF g] by simp
qed

text \<open>The example schema under the dotted name \<^verbatim>\<open>pkg.foo_pb2\<close>.\<close>

theorem init_package_name_witness:
  "example_import ''pkg.foo_pb2'' = Inr example_module
   \<and> sym_db example_module = Some example_pool
   \<and> (\<exists>g. init example_import ''pkg.foo_pb2'' None ''call_rpc'' False 0 = Inr g
          \<and> pb2_name g = ''foo'' @ ''_pb2''
          \<and> proto_package_name g = ''foo'')"
proof -
  have a: "example_import ''pkg.foo_pb2'' = Inr example_module"
    by (simp add: example_import_def)
  have b: "sym_db example_module = Some example_pool"
    by (simp add: example_module_def)
  have c: "rev (takeWhile (\<lambda>c. c \<noteq> CHR ''.'') (rev ''pkg.foo_pb2'')) = ''foo'' @ ''_pb2''"
    by simp
  from init_package_name
         [of example_import "''pkg.foo_pb2''" example_module example_pool None "''call_rpc''"
             False 0] a b
  obtain g where g: "init example_import ''pkg.foo_pb2'' None ''call_rpc'' False 0 = Inr g"
    and n: "pb2_name g = rev (takeWhile (\<lambda>c. c \<noteq> CHR ''.'') (rev ''pkg.foo_pb2''))"
    and p: "\<forall>pkg. pb2_name g = pkg @ ''_pb2'' \<longrightarrow> proto_package_name g = pkg"
    by auto
  have "proto_package_name g = ''foo''" using p n c by simp
  then show ?thesis using a b g n c by auto
qed

text \<open>
  Claim C9 as stated fails: the short name \<^verbatim>\<open>foo_pb2_grpc\<close> does not end in
  \<^verbatim>\<open>_pb2\<close>, and construction succeeds, with \<^verbatim>\<open>foo_pb2_\<close> as the package name.
\<close>

theorem init_suffix_counterexample:
  "init example_import ''foo_pb2_grpc'' None ''call_rpc'' False 0 =
     Inr \<lparr> pb2_module_name = ''foo_pb2_grpc'',
           core_method_name = ''call_rpc'',
           unfold_method_args = False,
           rpc_method_args_size = 0,
           pb2_path = [],
           pb2_name = ''foo_pb2_grpc'',
           proto_package_name = ''foo_pb2_'',
           service_name = ''FooPb2_'',
           stub_class_name = ''FooPb2_Stub'',
           pb2_module = example_module,
           sym_db_pool = example_pool \<rparr>"
  by code_simp

section \<open>Unfolded mode\<close>

lemma kwarg_line:
  "format ''            {0}={0}'' [PStr p] [] = Inr (''            '' @ p @ ''='' @ p)"
  by (simp add: format_def cons_res_def bind_res_def is_digit_def)

lemma indented_header_text:
  "format ''    def {}('' [PStr n] [] = Inr (''    def '' @ n @ ''('')"
  by (simp add: format_def cons_res_def bind_res_def)

lemma indented_body_text:
  "format
     (''        req = {req_name}(\<newline>''
      @ ''{indented_kwargs}\<newline>''
      @ ''        )\<newline>''
      @ ''        resp = self.{core_method_name}('{method_name}', req)\<newline>''
      @ ''        return resp\<newline>'') []
     [(''req_name'', PStr r), (''indented_kwargs'', PStr k),
      (''core_method_name'', PStr c), (''method_name'', PStr m)]
   = Inr (''        req = '' @ r @ ''(\<newline>'' @ k @ ''\<newline>''
          @ ''        )\<newline>''
          @ ''        resp = self.'' @ c @ ''('' @ [CHR 0x27] @ m @ [CHR 0x27] @ '', req)\<newline>''
          @ ''        return resp\<newline>'')"
  by (simp add: format_def cons_res_def bind_res_def is_digit_def)

lemma unfolded_method_text:
  "format (''\<newline>{indented_header}'' @ ''{indented_params}):\<newline>'' @ ''{indented_body}'') []
     [(''indented_header'', PStr h), (''indented_params'', PStr p), (''indented_body'', PStr b)]
   = Inr (''\<newline>'' @ h @ p @ ''):\<newline>'' @ b)"
  by (simp add: format_def cons_res_def bind_res_def is_digit_def)

lemma write_unfolded_rpc_method_text:
  "write_unfolded_rpc_method g method_name req_name req_param_names w =
     (case slice_every (''self'' # req_param_names)
             (if rpc_method_args_size g \<noteq> 0 then rpc_method_args_size g
              else int (length (''self'' # req_param_names))) False [] of
        Inl e \<Rightarrow> (Some e, w)
      | Inr pieces \<Rightarrow>
          (None, w @ ''\<newline>    def '' @ underscore method_name @ ''(''
                 @ str_join ('',\<newline>'' @ replicate (length (''    def '' @ underscore method_name @ ''(''))
                                          CHR '' '')
                     (map (str_join '', '') pieces)
                 @ ''):\<newline>''
                 @ ''        req = '' @ req_name @ ''(\<newline>''
                 @ str_join '',\<newline>'' (map (\<lambda>p. ''            '' @ p @ ''='' @ p) req_param_names)
                 @ ''\<newline>''
                 @ ''        )\<newline>''
                 @ ''        resp = self.'' @ core_method_name g
                 @ ''('' @ [CHR 0x27] @ method_name @ [CHR 0x27] @ '', req)\<newline>''
                 @ ''        return resp\<newline>''))"
  unfolding write_unfolded_rpc_method_def indented_header_text kwarg_line map_res_Inr_lambda
    indented_body_text unfolded_method_text Let_def
  by (simp add: bind_res_def write_res_def split: sum.splits)

lemma slice_every_whole:
  assumes "xs \<noteq> []" and "int (length xs) \<le> maxsize"
  shows "slice_every xs (int (length xs)) False p = Inr [xs]"
proof -
  have "0 < int (length xs)" using assms(1) by simp
  from slice_every_step [OF this assms(2,1), of False p] show ?thesis
    using assms(2) by (simp add: slice_every_nil cons_res_def bind_res_def)
qed

lemma slice_every_concat:
  assumes n: "0 < n" and m: "n \<le> maxsize"
  shows "\<exists>pieces. slice_every xs n False p = Inr pieces \<and> concat pieces = xs \<and> [] \<notin> set pieces"
proof (induction xs rule: length_induct)
  case (1 xs)
  show ?case
  proof (cases "xs = []")
    case True
    then show ?thesis using n m by (simp add: slice_every_nil)
  next
    case False
    have "length (drop (nat n) xs) < length xs" using False n by simp
    then obtain ps where ps: "slice_every (drop (nat n) xs) n False p = Inr ps"
      "concat ps = drop (nat n) xs" "[] \<notin> set ps"
      using 1 by blast
    have "take (nat n) xs \<noteq> []" using False n by (cases xs) auto
    then show ?thesis
      using slice_every_step [OF n m False, of False p] ps
      by (simp add: cons_res_def bind_res_def)
  qed
qed


text \<open>
  Claim C10.  With an argument size of 0 the emitter calls the chunking utility with the
  number of parameters, \<^verbatim>\<open>self\<close> included, as it would for that configured size; the
  utility then yields the whole list as its only piece, so the parameters are written on
  one line, joined by \<^verbatim>\<open>", "\<close>.  Given 0 itself, the utility would yield no piece.
  The second hypothesis holds of every Python list.
\<close>

theorem unfolded_zero_args_size:
  assumes "rpc_method_args_size g = 0"
    and "int (length (''self'' # req_param_names)) \<le> maxsize"
  shows "write_unfolded_rpc_method g method_name req_name req_param_names w =
           (None, w @ ''\<newline>    def '' @ underscore method_name @ ''(''
                  @ str_join '', '' (''self'' # req_param_names)
                  @ ''):\<newline>''
                  @ ''        req = '' @ req_name @ ''(\<newline>''
                  @ str_join '',\<newline>''
                      (map (\<lambda>p. ''            '' @ p @ ''='' @ p) req_param_names)
                  @ ''\<newline>''
                  @ ''        )\<newline>''
                  @ ''        resp = self.'' @ core_method_name g
                  @ ''('' @ [CHR 0x27] @ method_name @ [CHR 0x27] @ '', req)\<newline>''
                  @ ''        return resp\<newline>'')
       \<and> write_unfolded_rpc_method g method_name req_name req_param_names w =
           write_unfolded_rpc_method
             (g\<lparr>rpc_method_args_size := int (length (''self'' # req_param_names))\<rparr>)
             method_name req_name req_param_names w
       \<and> slice_every (''self'' # req_param_names) (int (length (''self'' # req_param_names)))
             False [] = Inr [''self'' # req_param_names]
       \<and> slice_every (''self'' # req_param_names) 0 False [] = Inr []"
proof -
  have whole: "slice_every (''self'' # req_param_names)
                 (int (length (''self'' # req_param_names))) False []
               = Inr [''self'' # req_param_names]"
    by (rule slice_every_whole) (use assms(2) in simp_all)
  have nz: "int (length (''self'' # req_param_names)) \<noteq> 0" by simp
  have a: "write_unfolded_rpc_method g method_name req_name req_param_names w =
           (None, w @ ''\<newline>    def '' @ underscore method_name @ ''(''
                  @ str_join '', '' (''self'' # req_param_names)
                  @ ''):\<newline>''
                  @ ''        req = '' @ req_name @ ''(\<newline>''
                  @ str_join '',\<newline>''
                      (map (\<lambda>p. ''            '' @ p @ ''='' @ p) req_param_names)
                  @ ''\<newline>''
                  @ ''        )\<newline>''
                  @ ''        resp = self.'' @ core_method_name g
                  @ ''('' @ [CHR 0x27] @ method_name @ [CHR 0x27] @ '', req)\<newline>''
                  @ ''        return resp\<newline>'')"
    unfolding write_unfolded_rpc_method_text
    by (simp only: assms(1) whole simp_thms if_False sum.case list.map str_join.simps)
  have b: "write_unfolded_rpc_method g method_name req_name req_param_names w =
           write_unfolded_rpc_method
             (g\<lparr>rpc_method_args_size := int (length (''self'' # req_param_names))\<rparr>)
             method_name req_name req_param_names w"
    unfolding write_unfolded_rpc_method_text using assms(1) whole by simp
  show ?thesis
    using a b whole slice_every_zero [of "''self'' # req_param_names" False "[]"] by blast
qed

theorem unfolded_zero_args_size_witness:
  "rpc_method_args_size (example_generator\<lparr>unfold_method_args := True\<rparr>) = 0
   \<and> int (length [''self'', ''id'', ''name'']) \<le> maxsize
   \<and> write_unfolded_rpc_method (example_generator\<lparr>unfold_method_args := True\<rparr>)
        ''GetUser'' ''GetUserRequest'' [''id'', ''name''] []
     = (None, ''\<newline>    def get_user(self, id, name):\<newline>''
              @ ''        req = GetUserRequest(\<newline>''
              @ ''            id=id,\<newline>''
              @ ''            name=name\<newline>''
              @ ''        )\<newline>''
              @ ''        resp = self.call_rpc('GetUser', req)\<newline>''
              @ ''        return resp\<newline>'')"
proof -
  have z: "rpc_method_args_size (example_generator\<lparr>unfold_method_args := True\<rparr>) = 0"
    by (simp add: example_generator_def)
  have l: "int (length [''self'', ''id'', ''name'']) \<le> maxsize"
    by (simp add: maxsize_def)
  show ?thesis
    using z l unfolded_zero_args_size [OF z l, of "''GetUser''" "''GetUserRequest''" "[]"]
    by (simp add: underscore_examples example_generator_def)
qed

text \<open>
  Claim C6.  In unfolded mode the loop body writes, for the stub attribute
  \<open>method_name\<close> bound to the request class \<open>rc\<close>, one method named by the underscored
  RPC name.  Its parameter list is \<^verbatim>\<open>self\<close> and the underscored field names in declared
  order, cut into lines (\<open>pieces\<close>); its body builds the request from one keyword
  argument per parameter and passes it to the core method under the RPC's literal name.
  This holds for every argument size from 0 to \<^verbatim>\<open>sys.maxsize\<close>; any other makes the
  chunking utility raise before anything is written, so that no wrapper is emitted.  The
  second hypothesis holds of every Python list.
\<close>

theorem unfolded_rpc_method:
  assumes "unfold_method_args g"
    and "int (length (''self'' # rc_fields rc)) \<le> maxsize"
  shows "(rpc_method_args_size g < 0 \<or> maxsize < rpc_method_args_size g \<longrightarrow>
            write_rpc_method g (method_name, rc) w = (Some ValueError, w))
       \<and> (0 \<le> rpc_method_args_size g \<and> rpc_method_args_size g \<le> maxsize \<longrightarrow>
            (\<exists>pieces.
               concat pieces = ''self'' # map underscore (rc_fields rc)
             \<and> [] \<notin> set pieces
             \<and> write_rpc_method g (method_name, rc) w =
                 (None, w @ ''\<newline>    def '' @ underscore method_name @ ''(''
                        @ str_join ('',\<newline>''
                                    @ replicate (length (''    def '' @ underscore method_name @ ''(''))
                                        CHR '' '')
                            (map (str_join '', '') pieces)
                        @ ''):\<newline>''
                        @ ''        req = '' @ rc_name rc @ ''(\<newline>''
                        @ str_join '',\<newline>''
                            (map (\<lambda>p. ''            '' @ p @ ''='' @ p)
                               (map underscore (rc_fields rc)))
                        @ ''\<newline>''
                        @ ''        )\<newline>''
                        @ ''        resp = self.'' @ core_method_name g
                        @ ''('' @ [CHR 0x27] @ method_name @ [CHR 0x27] @ '', req)\<newline>''
                        @ ''        return resp\<newline>'')))"
proof -
  let ?ps = "map underscore (rc_fields rc)"
  let ?n = "if rpc_method_args_size g \<noteq> 0 then rpc_method_args_size g
            else int (length (''self'' # ?ps))"
  have body: "write_rpc_method g (method_name, rc) w =
              write_unfolded_rpc_method g method_name (rc_name rc) ?ps w"
    using assms(1) by (simp add: write_rpc_method_def)
  have neg: "write_rpc_method g (method_name, rc) w = (Some ValueError, w)"
    if "rpc_method_args_size g < 0 \<or> maxsize < rpc_method_args_size g"
  proof -
    have "rpc_method_args_size g \<noteq> 0" using that maxsize_pos by auto
    then have "?n < 0 \<or> maxsize < ?n" using that by simp
    from slice_every_neg [OF this, of "''self'' # ?ps" False "[]"] show ?thesis
      unfolding body write_unfolded_rpc_method_text by simp
  qed
  have pos: "\<exists>pieces. concat pieces = ''self'' # ?ps \<and> [] \<notin> set pieces
       \<and> write_rpc_method g (method_name, rc) w =
                 (None, w @ ''\<newline>    def '' @ underscore method_name @ ''(''
                        @ str_join ('',\<newline>''
                                    @ replicate (length (''    def '' @ underscore method_name @ ''(''))
                                        CHR '' '')
                            (map (str_join '', '') pieces)
                        @ ''):\<newline>''
                        @ ''        req = '' @ rc_name rc @ ''(\<newline>''
                        @ str_join '',\<newline>''
                            (map (\<lambda>p. ''            '' @ p @ ''='' @ p) ?ps)
                        @ ''\<newline>''
                        @ ''        )\<newline>''
                        @ ''        resp = self.'' @ core_method_name g
                        @ ''('' @ [CHR 0x27] @ method_name @ [CHR 0x27] @ '', req)\<newline>''
                        @ ''        return resp\<newline>'')"
    if "0 \<le> rpc_method_args_size g \<and> rpc_method_args_size g \<le> maxsize"
  proof -
    have "0 < ?n" and "?n \<le> maxsize" using that assms(2) by simp_all
    from slice_every_concat [OF this, of "''self'' # ?ps" "[]"]
    obtain pieces where p: "slice_every (''self'' # ?ps) ?n False [] = Inr pieces"
      "concat pieces = ''self'' # ?ps" "[] \<notin> set pieces"
      by blast
    show ?thesis
      unfolding body write_unfolded_rpc_method_text p(1) sum.case
      using p(2,3) by blast
  qed
  show ?thesis using neg pos by blast
qed

text \<open>
  The example of the claim: the request fields \<^verbatim>\<open>id\<close> and \<^verbatim>\<open>name\<close> of \<^verbatim>\<open>GetUser\<close>,
  first as the theorem gives it, then as the text written for the argument size 0, and
  the argument sizes \<open>-1\<close> and \<^verbatim>\<open>sys.maxsize + 1\<close>.
\<close>

theorem unfolded_rpc_method_witness:
  "unfold_method_args (example_generator\<lparr>unfold_method_args := True\<rparr>)
   \<and> int (length [''self'', ''id'', ''name'']) \<le> maxsize
   \<and> 0 \<le> rpc_method_args_size (example_generator\<lparr>unfold_method_args := True\<rparr>)
   \<and> rpc_method_args_size (example_generator\<lparr>unfold_method_args := True\<rparr>) \<le> maxsize
   \<and> (\<exists>pieces.
         concat pieces = [''self'', ''id'', ''name'']
       \<and> [] \<notin> set pieces
       \<and> write_rpc_method (example_generator\<lparr>unfold_method_args := True\<rparr>)
            (''GetUser'', \<lparr> rc_name = ''GetUserRequest'', rc_fields = [''id'', ''name''] \<rparr>) []
          = (None, ''\<newline>    def get_user(''
                   @ str_join '',\<newline>                 '' (map (str_join '', '') pieces)
                   @ ''):\<newline>''
                   @ ''        req = GetUserRequest(\<newline>''
                   @ ''            id=id,\<newline>''
                   @ ''            name=name\<newline>''
                   @ ''        )\<newline>''
                   @ ''        resp = self.call_rpc('GetUser', req)\<newline>''
                   @ ''        return resp\<newline>''))
   \<and> write_rpc_method (example_generator\<lparr>unfold_method_args := True\<rparr>)
        (''GetUser'', \<lparr> rc_name = ''GetUserRequest'', rc_fields = [''id'', ''name''] \<rparr>) []
      = (None, ''\<newline>    def get_user(self, id, name):\<newline>''
               @ ''        req = GetUserRequest(\<newline>''
               @ ''            id=id,\<newline>''
               @ ''            name=name\<newline>''
               @ ''        )\<newline>''
               @ ''        resp = self.call_rpc('GetUser', req)\<newline>''
               @ ''        return resp\<newline>'')
   \<and> rpc_method_args_size
        (example_generator\<lparr>unfold_method_args := True, rpc_method_args_size := - 1\<rparr>) < 0
   \<and> write_rpc_method
        (example_generator\<lparr>unfold_method_args := True, rpc_method_args_size := - 1\<rparr>)
        (''GetUser'', \<lparr> rc_name = ''GetUserRequest'', rc_fields = [''id'', ''name''] \<rparr>) []
      = (Some ValueError, [])
   \<and> maxsize < rpc_method_args_size
        (example_generator\<lparr>unfold_method_args := True, rpc_method_args_size := 2 ^ 63\<rparr>)
   \<and> write_rpc_method
        (example_generator\<lparr>unfold_method_args := True, rpc_method_args_size := 2 ^ 63\<rparr>)
        (''GetUser'', \<lparr> rc_name = ''GetUserRequest'', rc_fields = [''id'', ''name''] \<rparr>) []
      = (Some ValueError, [])"
proof -
  let ?g = "example_generator\<lparr>unfold_method_args := True\<rparr>"
  let ?h = "example_generator\<lparr>unfold_method_args := True, rpc_method_args_size := - 1\<rparr>"
  let ?k = "example_generator\<lparr>unfold_method_args := True, rpc_method_args_size := 2 ^ 63\<rparr>"
  let ?rc = "\<lparr> rc_name = ''GetUserRequest'', rc_fields = [''id'', ''name''] \<rparr>"
  have u: "unfold_method_args ?g" and uh: "unfold_method_args ?h" and uk: "unfold_method_args ?k"
    and z: "0 \<le> rpc_method_args_size ?g" and zm: "rpc_method_args_size ?g \<le> maxsize"
    and m: "rpc_method_args_size ?h < 0" and b: "maxsize < rpc_method_args_size ?k"
    by (simp_all add: example_generator_def maxsize_def)
  have l: "int (length [''self'', ''id'', ''name'']) \<le> maxsize"
    and lr: "int (length (''self'' # rc_fields ?rc)) \<le> maxsize"
    by (simp_all add: maxsize_def)
  have shape: "\<exists>pieces.
         concat pieces = [''self'', ''id'', ''name'']
       \<and> [] \<notin> set pieces
       \<and> write_rpc_method ?g (''GetUser'', ?rc) []
          = (None, ''\<newline>    def get_user(''
                   @ str_join '',\<newline>                 '' (map (str_join '', '') pieces)
                   @ ''):\<newline>''
                   @ ''        req = GetUserRequest(\<newline>''
                   @ ''            id=id,\<newline>''
                   @ ''            name=name\<newline>''
                   @ ''        )\<newline>''
                   @ ''        resp = self.call_rpc('GetUser', req)\<newline>''
                   @ ''        return resp\<newline>'')"
    using unfolded_rpc_method [OF u lr, of "''GetUser''" "[]"] z zm
    by (simp add: underscore_examples example_generator_def)
  have exact: "write_rpc_method ?g (''GetUser'', ?rc) []
      = (None, ''\<newline>    def get_user(self, id, name):\<newline>''
               @ ''        req = GetUserRequest(\<newline>''
               @ ''            id=id,\<newline>''
               @ ''            name=name\<newline>''
               @ ''        )\<newline>''
               @ ''        resp = self.call_rpc('GetUser', req)\<newline>''
               @ ''        return resp\<newline>'')"
    by code_simp
  have neg: "write_rpc_method ?h (''GetUser'', ?rc) [] = (Some ValueError, [])"
    using unfolded_rpc_method [OF uh lr, of "''GetUser''" "[]"] m by blast
  have big: "write_rpc_method ?k (''GetUser'', ?rc) [] = (Some ValueError, [])"
    using unfolded_rpc_method [OF uk lr, of "''GetUser''" "[]"] b by blast
  show ?thesis
    using u l z zm shape exact m neg b big by blast
qed

section \<open>The order of the RPC methods\<close>

lemma map_res_Inr_on:
  assumes "\<And>x. x \<in> set xs \<Longrightarrow> f x = Inr (h x)"
  shows "map_res f xs = Inr (map h xs)"
  using assms by (induction xs) (simp_all add: bind_res_def)

lemma ordered_dict_fold:
  "distinct (map fst (d @ kvs)) \<Longrightarrow>
     foldl (\<lambda>d kv. od_set d (fst kv) (snd kv)) d kvs = d @ kvs"
proof (induction kvs arbitrary: d)
  case Nil
  then show ?case by simp
next
  case (Cons kv kvs)
  have "fst kv \<notin> set (map fst d)" using Cons.prems by auto
  then have step: "od_set d (fst kv) (snd kv) = d @ [kv]" by (simp add: od_set_def)
  have "distinct (map fst ((d @ [kv]) @ kvs))" using Cons.prems by simp
  from Cons.IH [OF this] show ?case by (simp add: step)
qed

lemma ordered_dict_distinct: "distinct (map fst kvs) \<Longrightarrow> ordered_dict kvs = kvs"
  using ordered_dict_fold [of "[]" kvs] by (simp add: ordered_dict_def)

lemma stub_method_names_sorted: "sorted (stub_method_names st)"
  by (simp add: stub_method_names_def)

lemma stub_method_names_distinct: "distinct (stub_method_names st)"
  by (simp add: stub_method_names_def py_dir_def)

lemma stub_method_names_set:
  "set (stub_method_names st) = {n \<in> fst ` set st. \<not> startswith n ''__''}"
  by (auto simp: stub_method_names_def py_dir_def)

lemma py_getattr_Inr_iff:
  "(\<exists>m. py_getattr st n = Inr m) \<longleftrightarrow> n \<in> fst ` set st"
proof -
  have "map_of (rev st) n = None \<longleftrightarrow> n \<notin> fst ` set (rev st)"
    by (rule map_of_eq_None_iff)
  then show ?thesis
    by (cases "map_of (rev st) n") (auto simp: py_getattr_def)
qed

lemma for_w_text_on:
  assumes "\<And>x w. x \<in> set xs \<Longrightarrow> body x w = (None, w @ t x)"
  shows "for_w body xs w = (None, w @ concat (map t xs))"
  using assms by (induction xs arbitrary: w) (simp_all add: then_w_def)

lemma write_rpc_method_append:
  assumes "unfold_method_args g \<longrightarrow>
             0 \<le> rpc_method_args_size g \<and> rpc_method_args_size g \<le> maxsize
           \<and> int (length (''self'' # rc_fields (snd item))) \<le> maxsize"
  shows "write_rpc_method g item w = (None, w @ snd (write_rpc_method g item []))"
proof (cases "unfold_method_args g")
  case False
  then show ?thesis
    by (simp add: write_rpc_method_def write_folded_rpc_method_text Let_def)
next
  case True
  let ?ps = "map underscore (rc_fields (snd item))"
  let ?n = "if rpc_method_args_size g \<noteq> 0 then rpc_method_args_size g
            else int (length (''self'' # ?ps))"
  have "0 < ?n" and "?n \<le> maxsize" using assms True by simp_all
  from slice_every_concat [OF this, of "''self'' # ?ps" "[]"]
  obtain pieces where p: "slice_every (''self'' # ?ps) ?n False [] = Inr pieces"
    by blast
  show ?thesis
    using True
    by (simp only: write_rpc_method_def Let_def if_True write_unfolded_rpc_method_text p
          sum.case snd_conv append_Nil)
qed

text \<open>
  Claim C3.  When the stub class exists, the loop body runs over a list of items whose
  names are strictly increasing in the lexicographic order of strings, and which holds
  exactly the attributes of the stub whose names do not start with two underscores.  Such
  a list is determined by the set of these attributes: the order in which the stub
  declares them plays no part.  Where the loop body does not raise, which is always in
  folded mode, and in unfolded mode for an argument size from 0 to \<^verbatim>\<open>sys.maxsize\<close>
  (the bound on the fields holds of every Python list), the text written is that of the
  loop body for each item, in this order.
\<close>

theorem rpc_methods_sorted:
  assumes "py_getattr (module_attrs (pb2_module g)) (stub_class_name g) = Inr st"
  shows "\<exists>items.
           sorted (map fst items)
         \<and> distinct (map fst items)
         \<and> set items = {(n, m). \<not> startswith n ''__'' \<and> py_getattr st n = Inr m}
         \<and> write_rpc_methods g w = for_w (write_rpc_method g) items w
         \<and> ((unfold_method_args g \<longrightarrow>
                0 \<le> rpc_method_args_size g \<and> rpc_method_args_size g \<le> maxsize
              \<and> list_all (\<lambda>item. int (length (''self'' # rc_fields (snd item))) \<le> maxsize)
                   items)
             \<longrightarrow> write_rpc_methods g w =
                   (None, w @ concat (map (\<lambda>item. snd (write_rpc_method g item [])) items)))"
proof -
  define get where "get = (\<lambda>n. (n, projr (py_getattr st n)))"
  define items where "items = map get (stub_method_names st)"
  have names: "map fst items = stub_method_names st"
    by (simp add: items_def get_def comp_def)
  have found: "bind_res (py_getattr st n) (\<lambda>m. Inr (n, m)) = Inr (get n)"
    if "n \<in> set (stub_method_names st)" for n
  proof -
    have "n \<in> fst ` set st" using that by (simp add: stub_method_names_set)
    then obtain m where "py_getattr st n = Inr m" using py_getattr_Inr_iff [of st n] by blast
    then show ?thesis by (simp add: bind_res_def get_def)
  qed
  have pairs: "map_res (\<lambda>name. bind_res (py_getattr st name) (\<lambda>m. Inr (name, m)))
                 (stub_method_names st) = Inr items"
    unfolding items_def by (rule map_res_Inr_on) (rule found)
  have od: "ordered_dict items = items"
    by (rule ordered_dict_distinct) (simp add: names stub_method_names_distinct)
  have loop: "write_rpc_methods g w = for_w (write_rpc_method g) items w"
    by (simp add: write_rpc_methods_def assms pairs od)
  have out: "write_rpc_methods g w =
             (None, w @ concat (map (\<lambda>item. snd (write_rpc_method g item [])) items))"
    if ok: "unfold_method_args g \<longrightarrow>
              0 \<le> rpc_method_args_size g \<and> rpc_method_args_size g \<le> maxsize
            \<and> list_all (\<lambda>item. int (length (''self'' # rc_fields (snd item))) \<le> maxsize) items"
  proof -
    have "write_rpc_method g item v = (None, v @ snd (write_rpc_method g item []))"
      if "item \<in> set items" for item v
      by (rule write_rpc_method_append) (use ok that in \<open>auto simp: list_all_iff\<close>)
    then show ?thesis
      unfolding loop by (rule for_w_text_on)
  qed
  have "set items = {(n, m). \<not> startswith n ''__'' \<and> py_getattr st n = Inr m}"
  proof (rule set_eqI, clarify)
    fix n m
    show "(n, m) \<in> set items \<longleftrightarrow> (n, m) \<in> {(n, m). \<not> startswith n ''__'' \<and> py_getattr st n = Inr m}"
    proof
      assume "(n, m) \<in> set items"
      then have n: "n \<in> set (stub_method_names st)" and m: "m = projr (py_getattr st n)"
        by (auto simp: items_def get_def)
      from n have "n \<in> fst ` set st" "\<not> startswith n ''__''"
        by (simp_all add: stub_method_names_set)
      then show "(n, m) \<in> {(n, m). \<not> startswith n ''__'' \<and> py_getattr st n = Inr m}"
        using m py_getattr_Inr_iff [of st n] by auto
    next
      assume "(n, m) \<in> {(n, m). \<not> startswith n ''__'' \<and> py_getattr st n = Inr m}"
      then have a: "\<not> startswith n ''__''" and b: "py_getattr st n = Inr m" by auto
      from b have "n \<in> fst ` set st" using py_getattr_Inr_iff [of st n] by blast
      then have "n \<in> set (stub_method_names st)" using a by (simp add: stub_method_names_set)
      then have "get n \<in> set items" by (simp add: items_def)
      then show "(n, m) \<in> set items" using b by (simp add: get_def)
    qed
  qed
  then show ?thesis
    using names stub_method_names_sorted [of st] stub_method_names_distinct [of st] loop out
    by (intro exI [of _ items]) simp
qed

text \<open>
  The example schema declares \<^verbatim>\<open>GetUser\<close> before \<^verbatim>\<open>AddUser\<close>; the method of
  \<^verbatim>\<open>AddUser\<close> is written first.
\<close>

theorem rpc_methods_sorted_witness:
  "py_getattr (module_attrs (pb2_module example_generator)) (stub_class_name example_generator)
     = Inr [(''GetUser'', \<lparr> rc_name = ''GetUserRequest'', rc_fields = [''id'', ''name''] \<rparr>),
            (''AddUser'', \<lparr> rc_name = ''AddUserRequest'', rc_fields = [''fullName''] \<rparr>)]
   \<and> \<not> unfold_method_args example_generator
   \<and> (\<exists>items.
         sorted (map fst items)
       \<and> distinct (map fst items)
       \<and> write_rpc_methods example_generator [] =
           (None, concat (map (\<lambda>item. snd (write_rpc_method example_generator item [])) items)))
   \<and> write_rpc_methods example_generator [] =
       (None, ''\<newline>    def add_user(self, add_user_request):\<newline>''
              @ ''        resp = self.call_rpc('AddUser', add_user_request)\<newline>''
              @ ''        return resp\<newline>''
              @ ''\<newline>    def get_user(self, get_user_request):\<newline>''
              @ ''        resp = self.call_rpc('GetUser', get_user_request)\<newline>''
              @ ''        return resp\<newline>'')"
proof -
  have st: "py_getattr (module_attrs (pb2_module example_generator))
              (stub_class_name example_generator)
     = Inr [(''GetUser'', \<lparr> rc_name = ''GetUserRequest'', rc_fields = [''id'', ''name''] \<rparr>),
            (''AddUser'', \<lparr> rc_name = ''AddUserRequest'', rc_fields = [''fullName''] \<rparr>)]"
    by (simp add: example_generator_def example_module_def py_getattr_def)
  have nu: "\<not> unfold_method_args example_generator"
    by (simp add: example_generator_def)
  have exact: "write_rpc_methods example_generator [] =
       (None, ''\<newline>    def add_user(self, add_user_request):\<newline>''
              @ ''        resp = self.call_rpc('AddUser', add_user_request)\<newline>''
              @ ''        return resp\<newline>''
              @ ''\<newline>    def get_user(self, get_user_request):\<newline>''
              @ ''        resp = self.call_rpc('GetUser', get_user_request)\<newline>''
              @ ''        return resp\<newline>'')"
    by code_simp
  from rpc_methods_sorted [OF st, of "[]"]
  obtain items where i: "sorted (map fst items)" "distinct (map fst items)"
    and o: "(unfold_method_args example_generator \<longrightarrow>
                0 \<le> rpc_method_args_size example_generator
              \<and> rpc_method_args_size example_generator \<le> maxsize
              \<and> list_all (\<lambda>item. int (length (''self'' # rc_fields (snd item))) \<le> maxsize)
                   items)
             \<longrightarrow> write_rpc_methods example_generator [] =
                   (None, [] @ concat (map (\<lambda>item. snd (write_rpc_method example_generator item []))
                                       items))"
    by blast
  have "write_rpc_methods example_generator [] =
          (None, concat (map (\<lambda>item. snd (write_rpc_method example_generator item [])) items))"
    using o nu by simp
  then show ?thesis
    using st nu exact i by blast
qed

section \<open>The naming transforms\<close>

lemma is_upper_iff: "is_upper c \<longleftrightarrow> 65 \<le> (of_char c :: nat) \<and> (of_char c :: nat) \<le> 90"
  by (simp add: is_upper_def less_eq_char_def)

lemma is_lower_iff: "is_lower c \<longleftrightarrow> 97 \<le> (of_char c :: nat) \<and> (of_char c :: nat) \<le> 122"
  by (simp add: is_lower_def less_eq_char_def)

lemma is_digit_iff: "is_digit c \<longleftrightarrow> 48 \<le> (of_char c :: nat) \<and> (of_char c :: nat) \<le> 57"
  by (simp add: is_digit_def less_eq_char_def)

lemma of_char_lower_char:
  "(of_char (lower_char c) :: nat) = (if is_upper c then of_char c + 32 else of_char c)"
  by (simp add: lower_char_def is_upper_iff)

lemma not_upper_lower_char: "\<not> is_upper (lower_char c)"
  by (simp add: is_upper_iff of_char_lower_char)

lemma lower_char_id: "\<not> is_upper c \<Longrightarrow> lower_char c = c"
  by (simp add: lower_char_def)

lemma upper_lower_char: "is_upper c \<Longrightarrow> upper_char (lower_char c) = c"
  by (simp add: upper_char_def is_lower_iff of_char_lower_char) (simp add: lower_char_def is_upper_iff)

lemma upper_char_id: "\<not> is_lower c \<Longrightarrow> upper_char c = c"
  by (simp add: upper_char_def)

lemma digit_not_letter: "is_digit c \<Longrightarrow> \<not> is_upper c \<and> \<not> is_lower c"
  by (simp add: is_digit_iff is_upper_iff is_lower_iff)

lemma upper_not_lower: "is_upper c \<Longrightarrow> \<not> is_lower c"
  by (simp add: is_upper_iff is_lower_iff)

lemma lower_char_hyphen: "lower_char c = CHR ''-'' \<longleftrightarrow> c = CHR ''-''"
proof
  assume a: "lower_char c = CHR ''-''"
  then have "(of_char (lower_char c) :: nat) = 45" by simp
  then have "\<not> is_upper c" by (auto simp: of_char_lower_char is_upper_iff split: if_splits)
  then show "c = CHR ''-''" using a by (simp add: lower_char_def)
next
  assume "c = CHR ''-''"
  then show "lower_char c = CHR ''-''" by (simp add: lower_char_def is_upper_def)
qed

lemma rmatch_re1_none:
  "no_adjacent_upper s \<Longrightarrow> rmatch underscore_re1 (p, s, g) = []"
proof (cases s)
  case Nil
  then show ?thesis by (simp add: underscore_re1_def)
next
  case (Cons a t)
  assume n: "no_adjacent_upper s"
  show ?thesis
  proof (cases t)
    case Nil
    then show ?thesis using Cons by (simp add: underscore_re1_def)
  next
    case (Cons b cs)
    then have "\<not> (is_upper a \<and> is_upper b)" using n \<open>s = a # t\<close> by simp
    then show ?thesis using Cons \<open>s = a # t\<close>
      by (auto simp: underscore_re1_def is_upper_def)
  qed
qed

lemma rmatch_re2:
  "rmatch underscore_re2 (p, s, g) =
     (case s of
        a # b # cs \<Rightarrow>
          if (is_lower a \<or> is_digit a) \<and> is_upper b
          then [(Suc (Suc p), cs, g(1 \<mapsto> [a], 2 \<mapsto> [b]))] else []
      | _ \<Rightarrow> [])"
  by (auto simp: underscore_re2_def is_upper_def is_lower_def split: list.splits)

lemma rmatch_camelize_pos:
  "0 < p \<Longrightarrow> rmatch camelize_re (p, s, g) =
     (case s of
        a # b # cs \<Rightarrow>
          if a = CHR ''_'' \<and> b \<noteq> CHR 0x0A then [(Suc (Suc p), cs, g(1 \<mapsto> [b]))] else []
      | _ \<Rightarrow> [])"
  by (auto simp: camelize_re_def split: list.splits)

lemma rmatch_camelize_zero:
  "rmatch camelize_re (0, c # cs, g) \<noteq> [] \<longleftrightarrow> c \<noteq> CHR 0x0A"
  "c \<noteq> CHR 0x0A \<Longrightarrow> hd (rmatch camelize_re (0, c # cs, g)) = (Suc 0, cs, g(1 \<mapsto> [c]))"
  by (auto simp: camelize_re_def split: list.splits)

lemma no_adjacent_upper_tl: "no_adjacent_upper (c # cs) \<Longrightarrow> no_adjacent_upper cs"
  by (cases cs) simp_all

lemma re_sub_re1_id:
  "no_adjacent_upper s \<Longrightarrow> re_sub_from underscore_re1 repl adj p s = s"
proof (induction s arbitrary: adj p)
  case Nil
  then show ?case by (simp add: rmatch_re1_none)
next
  case (Cons c cs)
  then show ?case
    using no_adjacent_upper_tl [OF Cons.prems]
    by (simp add: rmatch_re1_none)
qed

lemma re_sub_re2_us2:
  "re_sub_from underscore_re2 underscore_repl adj p s = us2 s"
proof (induction s arbitrary: adj p rule: us2.induct)
  case (1 a b cs)
  then show ?case
    by (simp add: rmatch_re2 underscore_repl_def group_def)
next
  case 3
  then show ?case by (simp add: rmatch_re2)
next
  case (2 v)
  then show ?case by (simp add: rmatch_re2)
qed

lemma re_sub_camelize_cam:
  "0 < p \<Longrightarrow> re_sub_from camelize_re camelize_repl adj p s = cam s"
proof (induction s arbitrary: adj p rule: cam.induct)
  case (1 a b cs)
  then show ?case
    by (simp add: rmatch_camelize_pos camelize_repl_def str_upper_def group_def)
next
  case 3
  then show ?case by (simp add: rmatch_camelize_pos)
next
  case (2 v)
  then show ?case by (simp add: rmatch_camelize_pos)
qed

lemma camelize_closed:
  "camelize s True =
     Inr (case s of [] \<Rightarrow> []
          | c # cs \<Rightarrow> (if c \<noteq> CHR 0x0A then upper_char c else c) # cam cs)"
proof (cases s)
  case Nil
  then show ?thesis by (simp add: camelize_def re_sub_def camelize_re_def)
next
  case (Cons c cs)
  show ?thesis
  proof (cases "c = CHR 0x0A")
    case True
    then have "rmatch camelize_re (0, c # cs, Map.empty) = []"
      using rmatch_camelize_zero(1) [of c cs Map.empty] by simp
    then show ?thesis using Cons True
      by (simp add: camelize_def re_sub_def re_sub_camelize_cam)
  next
    case False
    then obtain m ms where m: "rmatch camelize_re (0, c # cs, Map.empty) = m # ms"
      using rmatch_camelize_zero(1) [of c cs Map.empty]
      by (cases "rmatch camelize_re (0, c # cs, Map.empty)") auto
    then have "m = (Suc 0, cs, Map.empty(1 \<mapsto> [c]))"
      using rmatch_camelize_zero(2) [OF False, of cs Map.empty] by simp
    then show ?thesis using Cons False m
      by (simp add: camelize_def re_sub_def re_sub_camelize_cam camelize_repl_def str_upper_def
            group_def)
  qed
qed

lemma no_upper_no_adjacent:
  "list_all (\<lambda>c. \<not> is_upper c) s \<Longrightarrow> no_adjacent_upper s"
  by (induction s rule: no_adjacent_upper.induct) simp_all

lemma us2_no_upper: "list_all (\<lambda>c. \<not> is_upper c) s \<Longrightarrow> us2 s = s"
  by (induction s rule: us2.induct) simp_all

lemma str_lower_no_upper: "list_all (\<lambda>c. \<not> is_upper c) (str_lower s)"
  by (simp add: str_lower_def list_all_iff not_upper_lower_char)

lemma str_lower_id: "list_all (\<lambda>c. \<not> is_upper c) s \<Longrightarrow> str_lower s = s"
  by (induction s) (simp_all add: str_lower_def lower_char_id)

lemma replace_no_hyphen:
  "CHR ''-'' \<notin> set s \<Longrightarrow> str_replace_char CHR ''-'' CHR ''_'' s = s"
  by (induction s) (auto simp: str_replace_char_def)

lemma hyphen_lower_char: "CHR ''-'' = lower_char c \<longleftrightarrow> c = CHR ''-''"
  using lower_char_hyphen [of c] by auto

lemma underscore_no_hyphen: "CHR ''-'' \<notin> set (underscore w)"
  by (auto simp: underscore_def Let_def str_lower_def str_replace_char_def hyphen_lower_char
           split: if_splits)

lemma underscore_no_upper: "list_all (\<lambda>c. \<not> is_upper c) (underscore w)"
  by (simp add: underscore_def Let_def str_lower_no_upper)

lemma underscore_fixed:
  assumes "list_all (\<lambda>c. \<not> is_upper c) u" and "CHR ''-'' \<notin> set u"
  shows "underscore u = u"
  using assms
  by (simp add: underscore_def Let_def re_sub_def re_sub_re1_id no_upper_no_adjacent
        re_sub_re2_us2 us2_no_upper replace_no_hyphen str_lower_id)

lemma lower_char_underscore: "lower_char CHR ''_'' = CHR ''_''"
  by (simp add: lower_char_def is_upper_def)

lemma lower_char_upper_not_special:
  "is_upper b \<Longrightarrow> lower_char b \<noteq> CHR 0x0A \<and> lower_char b \<noteq> CHR ''_''"
proof -
  assume "is_upper b"
  then have "97 \<le> (of_char (lower_char b) :: nat)"
    by (simp add: of_char_lower_char is_upper_iff)
  then show ?thesis by auto
qed

lemma not_lower_upper_char: "\<not> is_lower (upper_char c)"
proof (cases "is_lower c")
  case True
  then have "(of_char c :: nat) - 32 < 256" unfolding is_lower_iff by linarith
  then have "(of_char (upper_char c) :: nat) = of_char c - 32"
    using True by (simp add: upper_char_def)
  then show ?thesis using True unfolding is_lower_iff by linarith
next
  case False
  then show ?thesis by (simp add: upper_char_def)
qed

lemma cam_Cons: "a \<noteq> CHR ''_'' \<Longrightarrow> cam (a # s) = a # cam s"
  by (cases s) simp_all

lemma set_us2: "set (us2 s) \<subseteq> insert CHR ''_'' (set s)"
  by (induction s rule: us2.induct) auto

text \<open>
  Claim C7.  A result of \<open>underscore\<close> has no uppercase letter and no hyphen, and on such a
  string no pattern matches and nothing is replaced or lower-cased.  This holds for every
  byte string, identifier or not.
\<close>

theorem underscore_idempotent: "underscore (underscore x) = underscore x"
  by (rule underscore_fixed) (rule underscore_no_upper, rule underscore_no_hyphen)

text \<open>An identifier with an acronym, a hyphen and a digit, and its underscored form.\<close>

theorem underscore_idempotent_witness:
  "underscore ''getHTTPResponse-code9Z'' = ''get_http_response_code9_z''
   \<and> underscore ''get_http_response_code9_z'' = ''get_http_response_code9_z''"
proof -
  have a: "underscore ''getHTTPResponse-code9Z'' = ''get_http_response_code9_z''"
    by code_simp
  have "underscore (underscore ''getHTTPResponse-code9Z'') = underscore ''getHTTPResponse-code9Z''"
    by (rule underscore_idempotent)
  then have "underscore ''get_http_response_code9_z'' = ''get_http_response_code9_z''"
    by (simp only: a)
  then show ?thesis using a by blast
qed

lemma rmatch_re1_short:
  "rmatch underscore_re1 (q, [], g) = []"
  "rmatch underscore_re1 (q, [a], g) = []"
  "\<not> (is_upper a \<and> is_upper b) \<Longrightarrow> rmatch underscore_re1 (q, a # b # r, g) = []"
  "rmatch underscore_re1 (q, [a, b], g) = []"
  by (auto simp: underscore_re1_def is_upper_def)

lemma rmatch_re1_pair:
  assumes "is_upper a" and "is_upper b" and "\<not> is_upper d"
  shows "rmatch underscore_re1 (q, a # b # d # r, g) =
           (if is_lower d then [(Suc (Suc (Suc q)), r, g(1 \<mapsto> [a], 2 \<mapsto> [b, d]))] else [])"
  using assms by (auto simp: underscore_re1_def is_upper_def is_lower_def)

lemma camel_ok_Cons: "camel_ok (a # s) = camel_tail a s"
  by (simp add: camel_ok_def)

lemma camel_tail_ok: "camel_tail p s \<Longrightarrow> camel_ok s"
  by (cases s) (simp_all add: camel_ok_def)

lemma upper_not_lower_digit: "is_upper c \<Longrightarrow> \<not> (is_lower c \<or> is_digit c)"
  using upper_not_lower digit_not_letter by blast

lemma lower_not_upper: "is_lower c \<Longrightarrow> \<not> is_upper c"
  using upper_not_lower by blast

lemma sep1_not_upper: "\<not> is_upper p \<Longrightarrow> sep1 p s = (case s of [] \<Rightarrow> [] | e # t \<Rightarrow> e # sep1 e t)"
  by (cases s) simp_all

lemma re_sub_re1_sep1:
  "camel_ok s \<Longrightarrow>
     re_sub_from underscore_re1 underscore_repl adj q s =
       (case s of [] \<Rightarrow> [] | p # t \<Rightarrow> p # sep1 p t)"
proof (induction s arbitrary: adj q rule: length_induct)
  case (1 s)
  show ?case
  proof (cases s)
    case Nil
    then show ?thesis by (simp add: rmatch_re1_short)
  next
    case (Cons p t)
    note s = Cons
    show ?thesis
    proof (cases t)
      case Nil
      then show ?thesis using s by (simp add: rmatch_re1_short)
    next
      case (Cons a s')
      note t = Cons
      have tail: "camel_tail p (a # s')" using "1.prems" unfolding s t camel_ok_Cons .
      show ?thesis
      proof (cases "is_upper p \<and> is_upper a")
        case False
        have ok: "camel_ok (a # s')" using tail by (simp add: camel_ok_def)
        have len: "length (a # s') < length s" using s t by simp
        have "re_sub_from underscore_re1 underscore_repl False (Suc q) (a # s')
                = (case a # s' of [] \<Rightarrow> [] | e # r \<Rightarrow> e # sep1 e r)"
          using "1.IH" len ok by blast
        then have ih: "re_sub_from underscore_re1 underscore_repl False (Suc q) (a # s')
                     = a # sep1 a s'"
          by (simp only: list.case)
        have "re_sub_from underscore_re1 underscore_repl adj q (p # a # s')
                = p # re_sub_from underscore_re1 underscore_repl False (Suc q) (a # s')"
          by (subst re_sub_from.simps) (simp add: rmatch_re1_short(3) [OF False])
        then show ?thesis
          using False s t ih by (simp del: re_sub_from.simps)
      next
        case True
        then have "a \<noteq> CHR ''_''" by (auto simp: is_upper_iff)
        then have "starts_lower s'"
          using tail True upper_not_lower_digit [of p] by auto
        then obtain d s'' where s': "s' = d # s''" and d: "is_lower d"
          by (cases s') simp_all
        have nd: "\<not> is_upper d" using d lower_not_upper by blast
        have ok: "camel_ok s''" using tail s' by (auto intro: camel_tail_ok)
        have len: "length s'' < length s" using s t s' by simp
        have rest: "re_sub_from underscore_re1 underscore_repl True (Suc (Suc (Suc q))) s''
                     = (case s'' of [] \<Rightarrow> [] | e # r \<Rightarrow> e # sep1 e r)"
          using "1.IH" len ok by blast
        have m: "rmatch underscore_re1 (q, p # a # d # s'', Map.empty) =
                   [(Suc (Suc (Suc q)), s'', Map.empty(1 \<mapsto> [p], 2 \<mapsto> [a, d]))]"
          using rmatch_re1_pair [of p a d q s'' Map.empty] True nd d by simp
        have "re_sub_from underscore_re1 underscore_repl adj q (p # a # d # s'')
                = p # CHR ''_'' # a # d
                  # re_sub_from underscore_re1 underscore_repl True (Suc (Suc (Suc q))) s''"
          by (subst re_sub_from.simps) (simp add: m underscore_repl_def group_def)
        then show ?thesis
          using True nd s t s' rest sep1_not_upper [OF nd, of s'']
          by (simp del: re_sub_from.simps)
      qed
    qed
  qed
qed

lemma us2_sep2: "us2 (a # s) = a # sep2 a s"
proof (induction "a # s" arbitrary: a s rule: us2.induct)
  case (1 a b cs)
  show ?case
  proof (cases "(is_lower a \<or> is_digit a) \<and> is_upper b")
    case True
    then have b: "\<not> (is_lower b \<or> is_digit b)" using upper_not_lower_digit by blast
    have "us2 cs = sep2 b cs"
    proof (cases cs)
      case Nil
      then show ?thesis by simp
    next
      case (Cons c r)
      then show ?thesis using 1(1) True b by simp
    qed
    then show ?thesis using True by simp
  next
    case False
    then show ?thesis using 1(2) [OF False] by auto
  qed
next
  case (2 a)
  then show ?case by simp
qed

lemma sep2_sep1:
  "camel_tail p s \<Longrightarrow> sep2 p (sep1 p s) = sep s"
proof (induction s arbitrary: p)
  case Nil
  then show ?case by simp
next
  case (Cons a s)
  have ih: "sep2 a (sep1 a s) = sep s" using Cons by simp
  show ?case
  proof (cases "is_upper a")
    case False
    then show ?thesis using ih by simp
  next
    case True
    then have "a \<noteq> CHR ''_''" by (auto simp: is_upper_iff)
    then have c: "(is_lower p \<or> is_digit p) \<or> (is_upper p \<and> starts_lower s)"
      using Cons.prems True by simp
    have us: "\<not> is_upper CHR ''_''" "\<not> (is_lower CHR ''_'' \<or> is_digit CHR ''_'')"
      by (simp_all add: is_upper_def is_lower_def is_digit_def)
    show ?thesis
    proof (cases "is_upper p")
      case True
      then show ?thesis using \<open>is_upper a\<close> ih us upper_not_lower_digit [of p] by simp
    next
      case False
      then show ?thesis using \<open>is_upper a\<close> ih c by simp
    qed
  qed
qed

lemma word_not_special: "is_word c \<Longrightarrow> c \<noteq> CHR ''-'' \<and> c \<noteq> CHR 0x0A"
  by (auto simp: is_word_def is_upper_iff is_lower_iff is_digit_iff)

lemma not_upper_underscore: "\<not> is_upper CHR ''_''"
  by (simp add: is_upper_def)

lemma set_sep: "set (sep s) \<subseteq> insert CHR ''_'' (set s)"
  by (induction s) auto

lemma cam_lower_sep:
  "list_all is_word s \<Longrightarrow> camel_tail p s \<Longrightarrow> cam (map lower_char (sep s)) = s"
proof (induction s arbitrary: p)
  case Nil
  then show ?case by simp
next
  case (Cons a s)
  have "list_all is_word s" and "camel_tail a s" using Cons.prems by simp_all
  then have ih: "cam (map lower_char (sep s)) = s" by (rule Cons.IH)
  show ?case
  proof (cases "is_upper a")
    case True
    then show ?thesis
      using ih lower_char_upper_not_special [OF True] upper_lower_char [OF True]
      by (simp add: lower_char_underscore)
  next
    case False
    show ?thesis
    proof (cases "a = CHR ''_''")
      case True
      then have "s = []" using Cons.prems(2) by simp
      then show ?thesis using True by (simp add: not_upper_underscore lower_char_underscore)
    next
      case u: False
      then show ?thesis using False ih by (simp add: lower_char_id cam_Cons)
    qed
  qed
qed

lemma underscore_camel:
  assumes "list_all is_word c" and "camel_ok c"
  shows "underscore c = map lower_char (case c of [] \<Rightarrow> [] | p # t \<Rightarrow> p # sep t)"
proof (cases c)
  case Nil
  then show ?thesis
    by (simp add: underscore_def Let_def re_sub_def rmatch_re1_short rmatch_re2
          str_replace_char_def str_lower_def)
next
  case (Cons p t)
  have tail: "camel_tail p t" using assms(2) Cons by (simp add: camel_ok_def)
  have one: "re_sub underscore_re1 underscore_repl c = p # sep1 p t"
    using re_sub_re1_sep1 [OF assms(2), of False 0] Cons by (simp add: re_sub_def)
  have two: "re_sub underscore_re2 underscore_repl (p # sep1 p t) = p # sep t"
    by (simp only: re_sub_def re_sub_re2_us2 us2_sep2 sep2_sep1 [OF tail])
  have "CHR ''-'' \<notin> set c" using assms(1) word_not_special by (auto simp: list_all_iff)
  then have "CHR ''-'' \<notin> set (p # sep t)" using set_sep [of t] Cons by auto
  then have three: "str_replace_char CHR ''-'' CHR ''_'' (p # sep t) = p # sep t"
    by (rule replace_no_hyphen)
  show ?thesis
    unfolding underscore_def Let_def one two three using Cons by (simp add: str_lower_def)
qed

lemma camelize_underscore_camel:
  assumes "list_all is_word c" and "camel_ok c" and "c = [] \<or> \<not> is_lower (hd c)"
  shows "camelize (underscore c) True = Inr c"
proof (cases c)
  case Nil
  then show ?thesis using underscore_camel [OF assms(1,2)] by (simp add: camelize_closed)
next
  case (Cons p t)
  have p: "is_word p" "\<not> is_lower p" using assms(1,3) Cons by simp_all
  have t: "list_all is_word t" "camel_tail p t"
    using assms(1,2) Cons by (simp_all add: camel_ok_def)
  have u: "underscore c = lower_char p # map lower_char (sep t)"
    using underscore_camel [OF assms(1,2)] Cons by simp
  have head: "(if lower_char p \<noteq> CHR 0x0A then upper_char (lower_char p) else lower_char p) = p"
  proof (cases "is_upper p")
    case True
    then show ?thesis
      using lower_char_upper_not_special [OF True] upper_lower_char [OF True] by simp
  next
    case False
    then show ?thesis
      using p word_not_special [OF p(1)] by (simp add: lower_char_id upper_char_id)
  qed
  show ?thesis
    unfolding u camelize_closed using head cam_lower_sep [OF t] Cons by simp
qed

lemma is_word_upper_char: "is_word c \<Longrightarrow> is_word (upper_char c)"
proof (cases "is_lower c")
  case True
  then have "(of_char c :: nat) - 32 < 256" unfolding is_lower_iff by linarith
  then have "(of_char (upper_char c) :: nat) = of_char c - 32"
    using True by (simp add: upper_char_def)
  then have "is_upper (upper_char c)" using True unfolding is_lower_iff is_upper_iff by linarith
  then show ?thesis by (simp add: is_word_def)
next
  case False
  assume "is_word c"
  then show ?thesis using False by (simp add: upper_char_def)
qed

lemma is_word_cam: "list_all is_word s \<Longrightarrow> list_all is_word (cam s)"
  by (induction s rule: cam.induct) (simp_all add: is_word_upper_char)

lemma camelize_word:
  assumes "list_all is_word x" and "camelize x True = Inr c"
  shows "list_all is_word c \<and> (c = [] \<or> \<not> is_lower (hd c))"
proof (cases x)
  case Nil
  then show ?thesis using assms(2) by (simp add: camelize_closed)
next
  case (Cons h t)
  have h: "is_word h" and t: "list_all is_word t" using assms(1) Cons by simp_all
  have c: "c = upper_char h # cam t"
    using assms(2) Cons word_not_special [OF h] by (simp add: camelize_closed)
  show ?thesis
    using c is_word_upper_char [OF h] is_word_cam [OF t] not_lower_upper_char [of h] by simp
qed

text \<open>
  Claim C8 as the code has it.  \<open>x\<close> is made of ASCII letters, digits and underscores,
  and \<open>c\<close> is its camel form.  \<open>underscore\<close> puts an underscore before an uppercase
  letter of \<open>c\<close> that follows a lowercase letter or a digit, or that follows an uppercase
  letter and is followed by a lowercase one.  When these are all the uppercase letters of
  \<open>c\<close> behind the first character, and \<open>c\<close> has no underscore between its first and its
  last character (\<open>camel_ok\<close>), \<open>camelize\<close> gives \<open>c\<close> back.
\<close>

theorem camelize_underscore_roundtrip:
  assumes "list_all is_word x" and "camelize x True = Inr c" and "camel_ok c"
  shows "camelize (underscore c) True = Inr c"
proof -
  have "list_all is_word c" and "c = [] \<or> \<not> is_lower (hd c)"
    using camelize_word [OF assms(1,2)] by simp_all
  then show ?thesis
    using assms(3) camelize_underscore_camel by blast
qed

text \<open>
  The camel forms of \<^verbatim>\<open>get_user_request\<close>, of \<^verbatim>\<open>get_a_thing\<close> and \<^verbatim>\<open>x_position\<close>
  (a word of one letter) and of \<^verbatim>\<open>user_\<close> (an underscore at the end).
\<close>

theorem camelize_underscore_roundtrip_witness:
  "list_all is_word ''get_user_request''
   \<and> camelize ''get_user_request'' True = Inr ''GetUserRequest''
   \<and> camel_ok ''GetUserRequest''
   \<and> camelize (underscore ''GetUserRequest'') True = Inr ''GetUserRequest''
   \<and> list_all is_word ''get_a_thing''
   \<and> camelize ''get_a_thing'' True = Inr ''GetAThing''
   \<and> camel_ok ''GetAThing''
   \<and> camelize (underscore ''GetAThing'') True = Inr ''GetAThing''
   \<and> list_all is_word ''x_position''
   \<and> camelize ''x_position'' True = Inr ''XPosition''
   \<and> camel_ok ''XPosition''
   \<and> camelize (underscore ''XPosition'') True = Inr ''XPosition''
   \<and> list_all is_word ''user_''
   \<and> camelize ''user_'' True = Inr ''User_''
   \<and> camel_ok ''User_''
   \<and> camelize (underscore ''User_'') True = Inr ''User_''"
proof -
  have a1: "list_all is_word ''get_user_request''"
    and b1: "camelize ''get_user_request'' True = Inr ''GetUserRequest''"
    and c1: "camel_ok ''GetUserRequest''"
    by code_simp+
  have a2: "list_all is_word ''get_a_thing''"
    and b2: "camelize ''get_a_thing'' True = Inr ''GetAThing''"
    and c2: "camel_ok ''GetAThing''"
    by code_simp+
  have a3: "list_all is_word ''x_position''"
    and b3: "camelize ''x_position'' True = Inr ''XPosition''"
    and c3: "camel_ok ''XPosition''"
    by code_simp+
  have a4: "list_all is_word ''user_''"
    and b4: "camelize ''user_'' True = Inr ''User_''"
    and c4: "camel_ok ''User_''"
    by code_simp+
  show ?thesis
    using a1 b1 c1 camelize_underscore_roundtrip [OF a1 b1 c1]
          a2 b2 c2 camelize_underscore_roundtrip [OF a2 b2 c2]
          a3 b3 c3 camelize_underscore_roundtrip [OF a3 b3 c3]
          a4 b4 c4 camelize_underscore_roundtrip [OF a4 b4 c4]
    by blast
qed

text \<open>
  Claim C8 as stated fails.  The camel form of \<^verbatim>\<open>a_b\<close> is \<^verbatim>\<open>AB\<close>, which comes back as
  \<^verbatim>\<open>Ab\<close>: the \<^verbatim>\<open>B\<close> follows an uppercase letter and no lowercase letter follows it.
  Likewise \<^verbatim>\<open>ABCd\<close> (of \<^verbatim>\<open>a_b_cd\<close>) comes back as \<^verbatim>\<open>AbCd\<close>.  An underscore inside
  the camel form is lost: \<^verbatim>\<open>A_b\<close> (of \<^verbatim>\<open>a__b\<close>) comes back as \<^verbatim>\<open>AB\<close>; and an uppercase
  letter behind an underscore is not restored: \<^verbatim>\<open>_A\<close> (of \<^verbatim>\<open>__a\<close>) comes back as
  \<^verbatim>\<open>_a\<close>.
\<close>

theorem camelize_roundtrip_counterexample:
  "camelize ''a_b'' True = Inr ''AB''
   \<and> underscore ''AB'' = ''ab''
   \<and> camelize (underscore ''AB'') True = Inr ''Ab''
   \<and> camelize ''a_b_cd'' True = Inr ''ABCd''
   \<and> camelize (underscore ''ABCd'') True = Inr ''AbCd''
   \<and> camelize ''a__b'' True = Inr ''A_b''
   \<and> camelize (underscore ''A_b'') True = Inr ''AB''
   \<and> camelize ''__a'' True = Inr ''_A''
   \<and> camelize (underscore ''_A'') True = Inr ''_a''"
  by code_simp

end
